theory Spec2Isabelle
  imports Main "HOL-Library.Word" "HOL-Library.Sublist"
begin

section \<open>The build event (package cbpb)\<close>

text \<open>
  Go strings are byte sequences; a \<^typ>\<open>string\<close> here is the list of the bytes of the Go
  string, so a character outside ASCII is the bytes of its UTF-8 encoding.

  \<open>cbpb.Build_Status\<close> is an \<open>int32\<close> with named values. The whole \<open>int32\<close> range is
  kept, because a status the switch of \<open>buildMessage\<close> does not name falls to its default.
\<close>

type_synonym Build_Status = "32 word"

definition Build_STATUS_UNKNOWN :: Build_Status where "Build_STATUS_UNKNOWN = 0"
definition Build_QUEUED :: Build_Status where "Build_QUEUED = 1"
definition Build_WORKING :: Build_Status where "Build_WORKING = 2"
definition Build_SUCCESS :: Build_Status where "Build_SUCCESS = 3"
definition Build_FAILURE :: Build_Status where "Build_FAILURE = 4"
definition Build_INTERNAL_ERROR :: Build_Status where "Build_INTERNAL_ERROR = 5"
definition Build_TIMEOUT :: Build_Status where "Build_TIMEOUT = 6"
definition Build_CANCELLED :: Build_Status where "Build_CANCELLED = 7"
definition Build_EXPIRED :: Build_Status where "Build_EXPIRED = 9"
definition Build_PENDING :: Build_Status where "Build_PENDING = 10"

lemmas Build_Status_defs =
  Build_STATUS_UNKNOWN_def Build_QUEUED_def Build_WORKING_def Build_SUCCESS_def
  Build_FAILURE_def Build_INTERNAL_ERROR_def Build_TIMEOUT_def Build_CANCELLED_def
  Build_EXPIRED_def Build_PENDING_def

text \<open>\<open>strconv.FormatInt(i, 10)\<close>: an optional minus sign and the decimal digits.\<close>

definition digit_char :: "nat \<Rightarrow> char" where
  "digit_char d = char_of (48 + d)"

fun digits10 :: "nat \<Rightarrow> string" where
  "digits10 n = (if n < 10 then [digit_char n] else digits10 (n div 10) @ [digit_char (n mod 10)])"

declare digits10.simps [simp del]

definition FormatInt :: "int \<Rightarrow> string" where
  "FormatInt i = (if i < 0 then CHR ''-'' # digits10 (nat (- i)) else digits10 (nat i))"

text \<open>
  The \<open>String\<close> method of the status, which \<open>%s\<close> calls: the name of a named value, the
  decimal number of any other.
\<close>

definition Build_Status_String :: "Build_Status \<Rightarrow> string" where
  "Build_Status_String st =
     (if st = Build_STATUS_UNKNOWN then ''STATUS_UNKNOWN''
      else if st = Build_QUEUED then ''QUEUED''
      else if st = Build_WORKING then ''WORKING''
      else if st = Build_SUCCESS then ''SUCCESS''
      else if st = Build_FAILURE then ''FAILURE''
      else if st = Build_INTERNAL_ERROR then ''INTERNAL_ERROR''
      else if st = Build_TIMEOUT then ''TIMEOUT''
      else if st = Build_CANCELLED then ''CANCELLED''
      else if st = Build_EXPIRED then ''EXPIRED''
      else if st = Build_PENDING then ''PENDING''
      else FormatInt (sint st))"

text \<open>
  Of \<open>cbpb.RepoSource\<close> only the repository name is read. \<open>cbpb.Source\<close> holds a oneof
  that is unset, a repository source (a pointer, so possibly nil) or another kind of
  source; \<open>Build.Source\<close> is itself a pointer.
\<close>

record cbpb_RepoSource =
  RepoName :: string

datatype isSource_Source =
    Source_StorageSource
  | Source_RepoSource "cbpb_RepoSource option"
  | Source_OtherSource

record cbpb_Source =
  Source_oneof :: "isSource_Source option"

record cbpb_Build =
  Id_build :: string
  ProjectId :: string
  Status :: Build_Status
  LogUrl :: string
  Substitutions :: "string \<rightharpoonup> string"
  Source :: "cbpb_Source option"

text \<open>The generated getters are nil-safe: on a nil receiver they return the zero value.\<close>

definition GetRepoSource :: "cbpb_Source option \<Rightarrow> cbpb_RepoSource option" where
  "GetRepoSource x =
     (case x of
        None \<Rightarrow> None
      | Some s \<Rightarrow> (case Source_oneof s of Some (Source_RepoSource r) \<Rightarrow> r | _ \<Rightarrow> None))"

definition GetRepoName :: "cbpb_RepoSource option \<Rightarrow> string" where
  "GetRepoName x = (case x of None \<Rightarrow> [] | Some r \<Rightarrow> RepoName r)"

text \<open>Indexing a Go map: the zero value (the empty string) for a key that is not there.\<close>

definition map_index :: "(string \<rightharpoonup> string) \<Rightarrow> string \<Rightarrow> string" where
  "map_index m k = (case m k of None \<Rightarrow> [] | Some v \<Rightarrow> v)"

text \<open>\<open>strings.Contains(s, substr)\<close>: \<open>substr\<close> starts at some position of \<open>s\<close>.\<close>

fun Contains :: "string \<Rightarrow> string \<Rightarrow> bool" where
  "Contains [] substr = (substr = [])"
| "Contains (c # cs) substr = (prefix substr (c # cs) \<or> Contains cs substr)"

section \<open>The message (main.go, lines 46 to 55)\<close>

text \<open>
  \<open>Color\<close> is a Go \<open>int\<close>, 64 bits wide on the platforms the notifier is built for.
  \<open>Embeds\<close> is a slice: \<open>None\<close> is the nil slice, \<open>Some []\<close> an empty slice that is not nil.
\<close>

record embed =
  Title :: string
  Color :: "64 word"
  Description :: string

record discordMessage =
  Content :: string
  Embeds :: "embed list option"

definition len_slice :: "'a list option \<Rightarrow> nat" where
  "len_slice s = (case s of None \<Rightarrow> 0 | Some xs \<Rightarrow> length xs)"

definition append_slice :: "'a list option \<Rightarrow> 'a \<Rightarrow> 'a list option" where
  "append_slice s x = (case s of None \<Rightarrow> Some [x] | Some xs \<Rightarrow> Some (xs @ [x]))"

text \<open>\<open>embeds[0].Description = d\<close>, reached only when \<open>len(embeds) > 0\<close>.\<close>

definition set_first_Description :: "embed list option \<Rightarrow> string \<Rightarrow> embed list option" where
  "set_first_Description s d =
     (case s of
        Some (e # es) \<Rightarrow> Some (e\<lparr>Description := d\<rparr> # es)
      | _ \<Rightarrow> s)"

section \<open>Serialization (encoding/json)\<close>

text \<open>
  \<open>utf8.DecodeRuneInString\<close>: the first rune of the string and the number of bytes it
  takes. A byte that starts no well-formed UTF-8 sequence gives \<open>(RuneError, 1)\<close>. The masks
  and shifts of the Go code are written as \<open>mod\<close> and multiplication on the byte values.
\<close>

definition RuneError :: nat where "RuneError = 0xFFFD"

definition byte_in :: "nat \<Rightarrow> nat \<Rightarrow> char \<Rightarrow> bool" where
  "byte_in lo hi c = (lo \<le> (of_char c :: nat) \<and> (of_char c :: nat) \<le> hi)"

definition accept_lo :: "nat \<Rightarrow> nat" where
  "accept_lo b0 = (if b0 = 0xE0 then 0xA0 else if b0 = 0xF0 then 0x90 else 0x80)"

definition accept_hi :: "nat \<Rightarrow> nat" where
  "accept_hi b0 = (if b0 = 0xED then 0x9F else if b0 = 0xF4 then 0x8F else 0xBF)"

fun DecodeRuneInString :: "string \<Rightarrow> nat \<times> nat" where
  "DecodeRuneInString [] = (RuneError, 0)"
| "DecodeRuneInString (c0 # cs) =
     (let b0 = (of_char c0 :: nat) in
      if b0 < 0x80 then (b0, 1)
      else if 0xC2 \<le> b0 \<and> b0 \<le> 0xDF then
        (case cs of
           c1 # _ \<Rightarrow>
             if byte_in 0x80 0xBF c1 then ((b0 mod 32) * 64 + of_char c1 mod 64, 2)
             else (RuneError, 1)
         | _ \<Rightarrow> (RuneError, 1))
      else if 0xE0 \<le> b0 \<and> b0 \<le> 0xEF then
        (case cs of
           c1 # c2 # _ \<Rightarrow>
             if byte_in (accept_lo b0) (accept_hi b0) c1 \<and> byte_in 0x80 0xBF c2
             then ((b0 mod 16) * 4096 + (of_char c1 mod 64) * 64 + of_char c2 mod 64, 3)
             else (RuneError, 1)
         | _ \<Rightarrow> (RuneError, 1))
      else if 0xF0 \<le> b0 \<and> b0 \<le> 0xF4 then
        (case cs of
           c1 # c2 # c3 # _ \<Rightarrow>
             if byte_in (accept_lo b0) (accept_hi b0) c1 \<and> byte_in 0x80 0xBF c2
                \<and> byte_in 0x80 0xBF c3
             then ((b0 mod 8) * 262144 + (of_char c1 mod 64) * 4096
                   + (of_char c2 mod 64) * 64 + of_char c3 mod 64, 4)
             else (RuneError, 1)
         | _ \<Rightarrow> (RuneError, 1))
      else (RuneError, 1))"

text \<open>
  The string encoder of \<open>json.Marshal\<close> (HTML escaping on, as \<open>Marshal\<close> has it): ASCII
  passes but for the quote, the backslash, the control characters and \<open><\<close>, \<open>>\<close>, \<open>&\<close>;
  a byte that is not well-formed UTF-8 becomes the escape of U+FFFD; U+2028 and U+2029
  are escaped; every other rune passes as its bytes.
\<close>

definition hex_char :: "nat \<Rightarrow> char" where
  "hex_char d = (if d < 10 then char_of (48 + d) else char_of (87 + d))"

definition htmlSafe :: "char \<Rightarrow> bool" where
  "htmlSafe c = (0x20 \<le> (of_char c :: nat) \<and> (of_char c :: nat) < 0x80
                 \<and> c \<notin> {CHR 0x22, CHR 0x5C, CHR ''<'', CHR ''>'', CHR ''&''})"

text \<open>
  The escapes of one ASCII byte. A Go release before 1.22 writes the backspace and the
  form feed as \<open>u0008\<close> and \<open>u000c\<close> escapes instead of the two-byte forms; both forms are
  read back as the same byte.
\<close>

definition escape_ascii :: "char \<Rightarrow> string" where
  "escape_ascii c =
     (if c = CHR 0x5C \<or> c = CHR 0x22 then [CHR 0x5C, c]
      else if c = CHR 0x08 then [CHR 0x5C, CHR ''b'']
      else if c = CHR 0x0C then [CHR 0x5C, CHR ''f'']
      else if c = CHR 0x0A then [CHR 0x5C, CHR ''n'']
      else if c = CHR 0x0D then [CHR 0x5C, CHR ''r'']
      else if c = CHR 0x09 then [CHR 0x5C, CHR ''t'']
      else [CHR 0x5C, CHR ''u'', CHR ''0'', CHR ''0'',
            hex_char (of_char c div 16), hex_char (of_char c mod 16)])"

fun appendString_body :: "string \<Rightarrow> string" where
  "appendString_body [] = []"
| "appendString_body (c # cs) =
     (if (of_char c :: nat) < 0x80 then
        (if htmlSafe c then [c] else escape_ascii c) @ appendString_body cs
      else
        (case DecodeRuneInString (c # cs) of
           (r, sz) \<Rightarrow>
             if r = RuneError \<and> sz = 1 then
               [CHR 0x5C, CHR ''u'', CHR ''f'', CHR ''f'', CHR ''f'', CHR ''d'']
               @ appendString_body cs
             else if r = 0x2028 \<or> r = 0x2029 then
               [CHR 0x5C, CHR ''u'', CHR ''2'', CHR ''0'', CHR ''2'', hex_char (r mod 16)]
               @ appendString_body (drop (sz - 1) cs)
             else c # take (sz - 1) cs @ appendString_body (drop (sz - 1) cs)))"

definition appendString :: "string \<Rightarrow> string" where
  "appendString s = CHR 0x22 # appendString_body s @ [CHR 0x22]"

text \<open>
  \<open>json.Marshal\<close> of the two structs: the fields in declaration order under the names of
  their tags, no white space, \<open>null\<close> for a nil slice. Its error result is there because
  the caller tests it; for these types no value makes it fail.
\<close>

datatype error =
    TransportError string
  | MarshalError string
  | Errorf string error

fun join_comma :: "string list \<Rightarrow> string" where
  "join_comma [] = []"
| "join_comma [x] = x"
| "join_comma (x # y # ys) = x @ CHR '','' # join_comma (y # ys)"

definition Marshal_embed :: "embed \<Rightarrow> string" where
  "Marshal_embed e =
     ''{'' @ appendString ''title'' @ '':'' @ appendString (Title e)
     @ '','' @ appendString ''color'' @ '':'' @ FormatInt (sint (Color e))
     @ '','' @ appendString ''description'' @ '':'' @ appendString (Description e) @ ''}''"

definition Marshal_embeds :: "embed list option \<Rightarrow> string" where
  "Marshal_embeds s =
     (case s of
        None \<Rightarrow> ''null''
      | Some es \<Rightarrow> ''['' @ join_comma (map Marshal_embed es) @ '']'')"

definition json_Marshal :: "discordMessage \<Rightarrow> error + string" where
  "json_Marshal m =
     Inr (''{'' @ appendString ''content'' @ '':'' @ appendString (Content m)
          @ '','' @ appendString ''embeds'' @ '':'' @ Marshal_embeds (Embeds m) @ ''}'')"

section \<open>The world outside the notifier\<close>

text \<open>
  What the notifier does to the outside is written to a trace, in order: the log lines
  (the format string of the call site and its arguments) and the two HTTP requests.
  What the outside answers is a parameter of the world: the environment variables and
  the outcome of each request, an error of the transport or a response.
\<close>

record http_Response =
  StatusCode :: int

datatype log_arg =
    Arg_string string
  | Arg_Status Build_Status
  | Arg_RepoSource "cbpb_RepoSource option"
  | Arg_Response http_Response
  | Arg_error error

datatype effect =
    log_Infof string "log_arg list"
  | log_Errorf string "log_arg list"
  | http_Get string
  | http_Post string string string

record world =
  Getenv :: "string \<Rightarrow> string"
  Get_result :: "string \<Rightarrow> error + http_Response"
  Post_result :: "string \<Rightarrow> string \<Rightarrow> string \<Rightarrow> error + http_Response"
  trace :: "effect list"

definition emit :: "effect \<Rightarrow> world \<Rightarrow> world" where
  "emit e w = w\<lparr>trace := trace w @ [e]\<rparr>"

fun is_Get :: "effect \<Rightarrow> bool" where
  "is_Get (http_Get _) = True"
| "is_Get _ = False"

fun is_Post :: "effect \<Rightarrow> bool" where
  "is_Post (http_Post _ _ _) = True"
| "is_Post _ = False"

section \<open>The notifier (main.go)\<close>

record discordNotifier =
  filter_pred :: "(cbpb_Build \<Rightarrow> bool) option"
  webhookURL :: string

text \<open>\<open>callDojo\<close>, lines 172 to 181.\<close>

definition callDojo :: "world \<Rightarrow> world" where
  "callDojo w =
     (let dojoURL = Getenv w ''DOJO_URL'' in
      if dojoURL \<noteq> [] then
        (let w1 = emit (http_Get dojoURL) w in
         case Get_result w dojoURL of
           Inl err \<Rightarrow> emit (log_Errorf ''Failed to call dojo %s'' [Arg_error err]) w1
         | Inr _ \<Rightarrow> emit (log_Infof ''Successfully called dojo'' []) w1)
      else w)"

text \<open>The description of lines 126 to 129, 148 to 151 and, with \<open>Access\<close>, 135 to 139.\<close>

definition description_body :: "cbpb_Build \<Rightarrow> string" where
  "description_body build =
     ''Build ID: '' @ Id_build build @ [CHR 0x0A]
     @ ''Service: '' @ map_index (Substitutions build) ''_APP_NAME'' @ [CHR 0x0A]
     @ ''Environment: '' @ ProjectId build @ [CHR 0x0A]
     @ ''Logs: '' @ LogUrl build"

text \<open>
  The switch of lines 121 to 156: the embeds after it and the world after it. The three
  titles start with the UTF-8 bytes of U+1F528, U+2705 and U+274C.
\<close>

definition status_switch :: "cbpb_Build \<Rightarrow> embed list option \<Rightarrow> world \<Rightarrow> embed list option \<times> world" where
  "status_switch build embeds w =
     (if Status build = Build_WORKING then
        (append_slice embeds
           \<lparr>Title = [CHR 0xF0, CHR 0x9F, CHR 0x94, CHR 0xA8] @ '' BUILDING'',
            Color = 1027128,
            Description = description_body build\<rparr>, w)
      else if Status build = Build_SUCCESS then
        (append_slice embeds
           \<lparr>Title = [CHR 0xE2, CHR 0x9C, CHR 0x85] @ '' SUCCESS'',
            Color = 1127128,
            Description = description_body build @ [CHR 0x0A]
              @ ''Access: '' @ map_index (Substitutions build) ''_URL''\<rparr>,
         if Contains (map_index (Substitutions build) ''_APP_NAME'') ''backend''
         then callDojo w else w)
      else if Status build = Build_FAILURE \<or> Status build = Build_INTERNAL_ERROR
              \<or> Status build = Build_TIMEOUT then
        (append_slice embeds
           \<lparr>Title = [CHR 0xE2, CHR 0x9D, CHR 0x8C] @ '' ERROR - ''
                    @ Build_Status_String (Status build),
            Color = 14177041,
            Description = description_body build\<rparr>, w)
      else
        (embeds, emit (log_Infof ''Unknown status %s'' [Arg_Status (Status build)]) w))"

text \<open>\<open>buildMessage\<close>, lines 112 to 170: the message (or nil), the error, the world.\<close>

definition buildMessage ::
  "discordNotifier \<Rightarrow> cbpb_Build \<Rightarrow> world \<Rightarrow> (discordMessage option \<times> error option) \<times> world" where
  "buildMessage s build w =
     (let sourceRepo = GetRepoSource (Source build);
          w1 = emit (log_Infof ''repo info %+v'' [Arg_RepoSource sourceRepo]) w;
          sourceText = (if sourceRepo \<noteq> None then GetRepoName sourceRepo else []);
          (embeds, w2) = status_switch build None w1;
          embeds' = (if len_slice embeds > 0 \<and> length sourceText > 0
                     then set_first_Description embeds sourceText else embeds)
      in if len_slice embeds' = 0 then
           ((None, None),
            emit (log_Infof ''unhandled status - skipping notification %s''
                    [Arg_Status (Status build)]) w2)
         else ((Some \<lparr>Content = [], Embeds = embeds'\<rparr>, None), w2))"

text \<open>\<open>SendNotification\<close>, lines 83 to 110: the error it returns (or nil) and the world.\<close>

definition SendNotification :: "discordNotifier \<Rightarrow> cbpb_Build \<Rightarrow> world \<Rightarrow> error option \<times> world" where
  "SendNotification s build w =
     (if (case filter_pred s of None \<Rightarrow> False | Some f \<Rightarrow> f build) then (None, w)
      else if map_index (Substitutions build) ''_APP_NAME'' \<noteq> [] then
        (let w1 = emit (log_Infof ''sending discord webhook for Build %q (status: %q)''
                          [Arg_string (Id_build build), Arg_Status (Status build)]) w
         in case buildMessage s build w1 of
              ((_, Some err), w2) \<Rightarrow> (Some (Errorf ''failed to write discord message: '' err), w2)
            | ((None, None), w2) \<Rightarrow> (None, w2)
            | ((Some msg, None), w2) \<Rightarrow>
                (case json_Marshal msg of
                   Inl err \<Rightarrow> (Some (Errorf ''Unable to marshal payload '' err), w2)
                 | Inr payload \<Rightarrow>
                     (let w3 = emit (log_Infof ''sending payload %s'' [Arg_string payload]) w2;
                          w4 = emit (http_Post (webhookURL s) ''application/json'' payload) w3
                      in case Post_result w (webhookURL s) ''application/json'' payload of
                           Inl err \<Rightarrow> (Some err, w4)
                         | Inr resp \<Rightarrow>
                             (None, emit (log_Infof ''got resp %+v'' [Arg_Response resp]) w4))))
      else (None, w))"

section \<open>Deserialization (encoding/json)\<close>

text \<open>
  Modelled from the spec: the repository has no deserializer (it only calls
  \<open>json.Marshal\<close>), so the reading side of the round trip of section 8 is
  \<open>json.Unmarshal\<close> into a \<open>discordMessage\<close>, for documents in the wire layout of
  section 6 as \<open>json.Marshal\<close> writes it: the keys in declaration order and no
  insignificant white space. Any other document is \<open>None\<close> here. Strings are unquoted
  and numbers are read as \<open>encoding/json\<close> does it.

  \<open>utf8.EncodeRune\<close>: the bytes of a rune; a surrogate or a value beyond U+10FFFF is
  written as U+FFFD.
\<close>

definition EncodeRune :: "nat \<Rightarrow> string" where
  "EncodeRune r =
     (if r < 0x80 then [char_of r]
      else if r < 0x800 then [char_of (0xC0 + r div 64), char_of (0x80 + r mod 64)]
      else if 0x10FFFF < r \<or> (0xD800 \<le> r \<and> r \<le> 0xDFFF) then [CHR 0xEF, CHR 0xBF, CHR 0xBD]
      else if r < 0x10000 then
        [char_of (0xE0 + r div 4096), char_of (0x80 + (r div 64) mod 64), char_of (0x80 + r mod 64)]
      else
        [char_of (0xF0 + r div 262144), char_of (0x80 + (r div 4096) mod 64),
         char_of (0x80 + (r div 64) mod 64), char_of (0x80 + r mod 64)])"

text \<open>
  Unquoting a JSON string (\<open>unquote\<close> and the scanner of \<open>encoding/json\<close>), from the
  byte after the opening quote: the string and what follows its closing quote. Escapes
  are resolved (a backslash and \<open>u\<close> with four hex digits, surrogate pairs combined, a
  lone surrogate read as U+FFFD), a raw control character is an error, and bytes
  outside ASCII are decoded and encoded again, which turns ill-formed UTF-8 into U+FFFD.
\<close>

definition hex_val :: "char \<Rightarrow> nat option" where
  "hex_val c =
     (let b = (of_char c :: nat) in
      if 48 \<le> b \<and> b \<le> 57 then Some (b - 48)
      else if 97 \<le> b \<and> b \<le> 102 then Some (b - 87)
      else if 65 \<le> b \<and> b \<le> 70 then Some (b - 55)
      else None)"

fun getu4 :: "string \<Rightarrow> nat option" where
  "getu4 (a # b # c # d # _) =
     (case (hex_val a, hex_val b, hex_val c, hex_val d) of
        (Some x, Some y, Some z, Some u) \<Rightarrow> Some (((x * 16 + y) * 16 + z) * 16 + u)
      | _ \<Rightarrow> None)"
| "getu4 _ = None"

definition simple_escape :: "char \<Rightarrow> char option" where
  "simple_escape e =
     (if e = CHR 0x22 \<or> e = CHR 0x5C \<or> e = CHR ''/'' then Some e
      else if e = CHR ''b'' then Some (CHR 0x08)
      else if e = CHR ''f'' then Some (CHR 0x0C)
      else if e = CHR ''n'' then Some (CHR 0x0A)
      else if e = CHR ''r'' then Some (CHR 0x0D)
      else if e = CHR ''t'' then Some (CHR 0x09)
      else None)"

definition IsSurrogate :: "nat \<Rightarrow> bool" where
  "IsSurrogate r = (0xD800 \<le> r \<and> r < 0xE000)"

definition utf16_DecodeRune :: "nat \<Rightarrow> nat \<Rightarrow> nat" where
  "utf16_DecodeRune r1 r2 =
     (if 0xD800 \<le> r1 \<and> r1 < 0xDC00 \<and> 0xDC00 \<le> r2 \<and> r2 < 0xE000
      then (r1 - 0xD800) * 1024 + (r2 - 0xDC00) + 0x10000
      else RuneError)"

definition second_u4 :: "string \<Rightarrow> nat option" where
  "second_u4 s = (case s of a # b # t \<Rightarrow> if a = CHR 0x5C \<and> b = CHR ''u'' then getu4 t else None | _ \<Rightarrow> None)"

definition cons_result :: "string \<Rightarrow> (string \<times> string) option \<Rightarrow> (string \<times> string) option" where
  "cons_result p r = (case r of None \<Rightarrow> None | Some (t, rest) \<Rightarrow> Some (p @ t, rest))"

fun unquote_body :: "string \<Rightarrow> (string \<times> string) option" where
  "unquote_body [] = None"
| "unquote_body (c # cs) =
     (if c = CHR 0x22 then Some ([], cs)
      else if c = CHR 0x5C then
        (case cs of
           [] \<Rightarrow> None
         | e # es \<Rightarrow>
             if e = CHR ''u'' then
               (case getu4 es of
                  None \<Rightarrow> None
                | Some rr \<Rightarrow>
                    if IsSurrogate rr then
                      (case second_u4 (drop 4 es) of
                         None \<Rightarrow> cons_result (EncodeRune RuneError) (unquote_body (drop 4 es))
                       | Some rr1 \<Rightarrow>
                           if utf16_DecodeRune rr rr1 \<noteq> RuneError
                           then cons_result (EncodeRune (utf16_DecodeRune rr rr1))
                                  (unquote_body (drop 10 es))
                           else cons_result (EncodeRune RuneError) (unquote_body (drop 4 es)))
                    else cons_result (EncodeRune rr) (unquote_body (drop 4 es)))
             else
               (case simple_escape e of
                  None \<Rightarrow> None
                | Some ch \<Rightarrow> cons_result [ch] (unquote_body es)))
      else if (of_char c :: nat) < 0x20 then None
      else if (of_char c :: nat) < 0x80 then cons_result [c] (unquote_body cs)
      else
        (case DecodeRuneInString (c # cs) of
           (rr, sz) \<Rightarrow> cons_result (EncodeRune rr) (unquote_body (drop (sz - 1) cs))))"

definition parse_string :: "string \<Rightarrow> (string \<times> string) option" where
  "parse_string s =
     (case s of
        c # t \<Rightarrow> if c = CHR 0x22 then unquote_body t else None
      | [] \<Rightarrow> None)"

text \<open>
  A number read into a Go \<open>int\<close>: an optional minus sign and decimal digits with no
  leading zero, in the range of 64 bits (\<open>strconv.ParseInt\<close>).
\<close>

definition is_digit :: "char \<Rightarrow> bool" where
  "is_digit c = (48 \<le> (of_char c :: nat) \<and> (of_char c :: nat) \<le> 57)"

fun digits_val :: "nat \<Rightarrow> string \<Rightarrow> nat" where
  "digits_val acc [] = acc"
| "digits_val acc (c # cs) = digits_val (acc * 10 + (of_char c - 48)) cs"

definition parse_int :: "string \<Rightarrow> (64 word \<times> string) option" where
  "parse_int s =
     (let neg = (case s of c # _ \<Rightarrow> c = CHR ''-'' | [] \<Rightarrow> False);
          s1 = (if neg then tl s else s);
          ds = takeWhile is_digit s1;
          rest = dropWhile is_digit s1
      in if ds = [] then None
         else if 1 < length ds \<and> hd ds = CHR ''0'' then None
         else
           (let v = (if neg then - int (digits_val 0 ds) else int (digits_val 0 ds))
            in if v < - (2 ^ 63) \<or> 2 ^ 63 \<le> v then None
               else Some (word_of_int v, rest)))"

text \<open>The punctuation and the keys of the layout, and one embed object.\<close>

definition expect :: "string \<Rightarrow> string \<Rightarrow> string option" where
  "expect lit s = (if prefix lit s then Some (drop (length lit) s) else None)"

definition key :: "string \<Rightarrow> string" where
  "key name = CHR 0x22 # name @ [CHR 0x22, CHR '':'']"

definition parse_embed :: "string \<Rightarrow> (embed \<times> string) option" where
  "parse_embed s =
     (case expect (''{'' @ key ''title'') s of
        None \<Rightarrow> None
      | Some s1 \<Rightarrow>
     (case parse_string s1 of
        None \<Rightarrow> None
      | Some (t, s2) \<Rightarrow>
     (case expect ('','' @ key ''color'') s2 of
        None \<Rightarrow> None
      | Some s3 \<Rightarrow>
     (case parse_int s3 of
        None \<Rightarrow> None
      | Some (c, s4) \<Rightarrow>
     (case expect ('','' @ key ''description'') s4 of
        None \<Rightarrow> None
      | Some s5 \<Rightarrow>
     (case parse_string s5 of
        None \<Rightarrow> None
      | Some (d, s6) \<Rightarrow>
     (case expect ''}'' s6 of
        None \<Rightarrow> None
      | Some s7 \<Rightarrow> Some (\<lparr>Title = t, Color = c, Description = d\<rparr>, s7))))))))"

text \<open>
  The elements of a non-empty array, up to its closing bracket. Every element takes at
  least one byte of the input, which is why the loop ends.
\<close>

lemma cons_result_Some:
  "cons_result p x = Some (y, r) \<Longrightarrow> \<exists>y'. x = Some (y', r)"
  by (auto simp: cons_result_def split: option.splits)

lemma unquote_body_step:
  assumes "unquote_body (c # cs) = Some (x, r)"
  shows "r = cs \<or> (\<exists>s' y. length s' \<le> length cs \<and> unquote_body s' = Some (y, r))"
proof (cases "c = CHR 0x22")
  case True
  then show ?thesis using assms by simp
next
  case nq: False
  show ?thesis
  proof (cases "c = CHR 0x5C")
    case True
    then obtain e es where cs: "cs = e # es"
      using assms nq by (cases cs) auto
    show ?thesis
    proof (cases "e = CHR ''u''")
      case u: True
      then obtain rr where g: "getu4 es = Some rr"
        using assms nq True cs by (cases "getu4 es") auto
      have "\<exists>p k. cons_result p (unquote_body (drop k es)) = Some (x, r)"
        using assms nq True cs u g
        by (auto split: if_splits option.splits)
      then obtain p k y where "unquote_body (drop k es) = Some (y, r)"
        using cons_result_Some by blast
      moreover have "length (drop k es) \<le> length cs" using cs by simp
      ultimately show ?thesis by blast
    next
      case False
      then obtain ch where "cons_result [ch] (unquote_body es) = Some (x, r)"
        using assms nq True cs by (auto split: option.splits)
      then obtain y where "unquote_body es = Some (y, r)"
        using cons_result_Some by blast
      moreover have "length es \<le> length cs" using cs by simp
      ultimately show ?thesis by blast
    qed
  next
    case nb: False
    show ?thesis
    proof (cases "(of_char c :: nat) < 0x80")
      case True
      then have "cons_result [c] (unquote_body cs) = Some (x, r)"
        using assms nq nb by (auto split: if_splits)
      then obtain y where "unquote_body cs = Some (y, r)"
        using cons_result_Some by blast
      then show ?thesis by auto
    next
      case False
      obtain rr sz where d: "DecodeRuneInString (c # cs) = (rr, sz)"
        by (cases "DecodeRuneInString (c # cs)")
      have "cons_result (EncodeRune rr) (unquote_body (drop (sz - 1) cs)) = Some (x, r)"
        using assms nq nb False d by (simp del: DecodeRuneInString.simps)
      then obtain y where "unquote_body (drop (sz - 1) cs) = Some (y, r)"
        using cons_result_Some by blast
      moreover have "length (drop (sz - 1) cs) \<le> length cs" by simp
      ultimately show ?thesis by blast
    qed
  qed
qed

lemma unquote_body_length:
  "unquote_body s = Some (x, r) \<Longrightarrow> length r < length s"
proof (induction "length s" arbitrary: s x rule: less_induct)
  case less
  from less.prems obtain c cs where s: "s = c # cs" by (cases s) auto
  from unquote_body_step [OF less.prems [unfolded s]]
  show ?case
  proof
    assume "r = cs"
    then show ?thesis using s by simp
  next
    assume "\<exists>s' y. length s' \<le> length cs \<and> unquote_body s' = Some (y, r)"
    then obtain s' y where l: "length s' \<le> length cs" and u: "unquote_body s' = Some (y, r)"
      by blast
    have "length s' < length s" using l s by simp
    from less.hyps [OF this u] l s show ?thesis by simp
  qed
qed

lemma expect_length: "expect lit s = Some r \<Longrightarrow> length r \<le> length s"
  by (auto simp: expect_def split: if_splits)

lemma parse_string_length: "parse_string s = Some (x, r) \<Longrightarrow> length r < length s"
  by (auto simp: parse_string_def split: list.splits if_splits dest: unquote_body_length)

lemma parse_int_length: "parse_int s = Some (x, r) \<Longrightarrow> length r \<le> length s"
proof -
  assume a: "parse_int s = Some (x, r)"
  have d: "length (dropWhile is_digit t) \<le> length t" for t
    by (rule length_dropWhile_le)
  have t: "length (tl s) \<le> length s" by simp
  from a have "r = dropWhile is_digit s \<or> r = dropWhile is_digit (tl s)"
    by (auto simp: parse_int_def Let_def split: if_splits)
  then show ?thesis using d [of s] d [of "tl s"] t by auto
qed

lemma parse_embed_length:
  assumes "parse_embed s = Some (e, r)"
  shows "length r < length s"
proof -
  from assms obtain s1 t s2 s3 c s4 s5 d s6 where
    1: "expect (''{'' @ key ''title'') s = Some s1" and
    2: "parse_string s1 = Some (t, s2)" and
    3: "expect ('','' @ key ''color'') s2 = Some s3" and
    4: "parse_int s3 = Some (c, s4)" and
    5: "expect ('','' @ key ''description'') s4 = Some s5" and
    6: "parse_string s5 = Some (d, s6)" and
    7: "expect ''}'' s6 = Some r"
    unfolding parse_embed_def
    by (auto split: option.splits)
  from expect_length [OF 1] parse_string_length [OF 2] expect_length [OF 3]
    parse_int_length [OF 4] expect_length [OF 5] parse_string_length [OF 6] expect_length [OF 7]
  show ?thesis by linarith
qed

function parse_elems :: "string \<Rightarrow> (embed list \<times> string) option" where
  "parse_elems s =
     (case parse_embed s of
        None \<Rightarrow> None
      | Some (e, r) \<Rightarrow>
          (case r of
             [] \<Rightarrow> None
           | c # t \<Rightarrow>
               if c = CHR '','' then
                 (case parse_elems t of
                    None \<Rightarrow> None
                  | Some (es, r') \<Rightarrow> Some (e # es, r'))
               else if c = CHR '']'' then Some ([e], t)
               else None))"
  by pat_completeness auto
termination
proof (relation "measure length")
  show "wf (measure length)" by simp
next
  fix s x2 e r c t
  assume "parse_embed s = Some x2" "(e, r) = x2" "r = c # t" "c = CHR '',''"
  then have "length r < length s" using parse_embed_length [of s e r] by simp
  then show "(t, s) \<in> measure length" using \<open>r = c # t\<close> by simp
qed

declare parse_elems.simps [simp del]

definition parse_embeds :: "string \<Rightarrow> (embed list option \<times> string) option" where
  "parse_embeds s =
     (if prefix ''null'' s then Some (None, drop 4 s)
      else
        (case s of
           c # t \<Rightarrow>
             if c = CHR ''['' then
               (case t of
                  c' # t' \<Rightarrow>
                    if c' = CHR '']'' then Some (Some [], t')
                    else (case parse_elems t of
                            None \<Rightarrow> None
                          | Some (es, r) \<Rightarrow> Some (Some es, r))
                | [] \<Rightarrow> None)
             else None
         | [] \<Rightarrow> None))"

definition json_Unmarshal :: "string \<Rightarrow> discordMessage option" where
  "json_Unmarshal s =
     (case expect (''{'' @ key ''content'') s of
        None \<Rightarrow> None
      | Some s1 \<Rightarrow>
     (case parse_string s1 of
        None \<Rightarrow> None
      | Some (c, s2) \<Rightarrow>
     (case expect ('','' @ key ''embeds'') s2 of
        None \<Rightarrow> None
      | Some s3 \<Rightarrow>
     (case parse_embeds s3 of
        None \<Rightarrow> None
      | Some (es, s4) \<Rightarrow>
          if s4 = ''}'' then Some \<lparr>Content = c, Embeds = es\<rparr> else None))))"

text \<open>
  \<open>utf8.ValidString\<close>: no decoding step meets an ill-formed byte. A message is valid
  when each of its strings is.
\<close>

fun utf8_valid :: "string \<Rightarrow> bool" where
  "utf8_valid [] = True"
| "utf8_valid (c # cs) =
     (case DecodeRuneInString (c # cs) of
        (r, sz) \<Rightarrow> \<not> (r = RuneError \<and> sz = 1) \<and> utf8_valid (drop (sz - 1) cs))"

definition embed_valid :: "embed \<Rightarrow> bool" where
  "embed_valid e = (utf8_valid (Title e) \<and> utf8_valid (Description e))"

definition message_valid :: "discordMessage \<Rightarrow> bool" where
  "message_valid m =
     (utf8_valid (Content m)
      \<and> (case Embeds m of None \<Rightarrow> True | Some es \<Rightarrow> list_all embed_valid es))"

text \<open>
  A build whose strings (those that \<open>buildMessage\<close> reads) are well-formed UTF-8, as
  the strings of a protobuf message are.
\<close>

definition build_valid :: "cbpb_Build \<Rightarrow> bool" where
  "build_valid build =
     (utf8_valid (Id_build build) \<and> utf8_valid (ProjectId build) \<and> utf8_valid (LogUrl build)
      \<and> utf8_valid (map_index (Substitutions build) ''_APP_NAME'')
      \<and> utf8_valid (map_index (Substitutions build) ''_URL'')
      \<and> utf8_valid (GetRepoName (GetRepoSource (Source build))))"

section \<open>The specification's vocabulary\<close>

text \<open>
  The statuses that the specification's table of section 4.2 lists, and the title and
  the colour the table gives each of them.
\<close>

definition handled_status :: "Build_Status \<Rightarrow> bool" where
  "handled_status st =
     (st = Build_WORKING \<or> st = Build_SUCCESS \<or> st = Build_FAILURE
      \<or> st = Build_INTERNAL_ERROR \<or> st = Build_TIMEOUT)"

definition table_title :: "Build_Status \<Rightarrow> string" where
  "table_title st =
     (if st = Build_WORKING then [CHR 0xF0, CHR 0x9F, CHR 0x94, CHR 0xA8] @ '' BUILDING''
      else if st = Build_SUCCESS then [CHR 0xE2, CHR 0x9C, CHR 0x85] @ '' SUCCESS''
      else if st = Build_FAILURE then [CHR 0xE2, CHR 0x9D, CHR 0x8C] @ '' ERROR - FAILURE''
      else if st = Build_INTERNAL_ERROR then [CHR 0xE2, CHR 0x9D, CHR 0x8C] @ '' ERROR - INTERNAL_ERROR''
      else [CHR 0xE2, CHR 0x9D, CHR 0x8C] @ '' ERROR - TIMEOUT'')"

definition table_color :: "Build_Status \<Rightarrow> 64 word" where
  "table_color st =
     (if st = Build_WORKING then 1027128 else if st = Build_SUCCESS then 1127128 else 14177041)"

text \<open>
  The dispatch gate of section 4.1: suppress when a configured predicate holds of the
  event, otherwise require a non-empty \<open>_APP_NAME\<close>.
\<close>

definition shouldNotify :: "discordNotifier \<Rightarrow> cbpb_Build \<Rightarrow> bool" where
  "shouldNotify s build =
     (if (case filter_pred s of None \<Rightarrow> False | Some p \<Rightarrow> p build) then False
      else map_index (Substitutions build) ''_APP_NAME'' \<noteq> [])"

text \<open>
  The description the switch gives an embed (lines 126 to 129, 135 to 139 and 148 to
  151), and the descriptions of the embeds of a message that may be nil.
\<close>

definition status_body :: "cbpb_Build \<Rightarrow> string" where
  "status_body build =
     (if Status build = Build_SUCCESS
      then description_body build @ [CHR 0x0A] @ ''Access: '' @ map_index (Substitutions build) ''_URL''
      else description_body build)"

definition embed_descriptions :: "discordMessage option \<Rightarrow> string list" where
  "embed_descriptions m =
     (case m of
        None \<Rightarrow> []
      | Some msg \<Rightarrow> (case Embeds msg of None \<Rightarrow> [] | Some es \<Rightarrow> map Description es))"

section \<open>Example values\<close>

text \<open>
  The build of \<open>TestBuildMessage\<close> (\<open>main_test.go\<close>), variations of it, a notifier with no
  filter, and worlds: one whose requests succeed, one with \<open>DOJO_URL\<close> set, one whose
  GET fails, one with a given outcome of the POST.
\<close>

definition test_build :: cbpb_Build where
  "test_build =
     \<lparr>Id_build = ''some-build-id'', ProjectId = ''my-project-id'', Status = Build_SUCCESS,
      LogUrl = ''https://some.example.com/log/url?foo=bar'',
      Substitutions = [''_APP_NAME'' \<mapsto> ''my-app'', ''_URL'' \<mapsto> ''https://some.example.com''],
      Source = None\<rparr>"

definition repo_build :: "string \<Rightarrow> cbpb_Build" where
  "repo_build name =
     test_build\<lparr>Source := Some \<lparr>Source_oneof = Some (Source_RepoSource (Some \<lparr>RepoName = name\<rparr>))\<rparr>\<rparr>"

definition backend_build :: "string \<Rightarrow> cbpb_Build" where
  "backend_build app = test_build\<lparr>Substitutions := [''_APP_NAME'' \<mapsto> app]\<rparr>"

definition plain_notifier :: discordNotifier where
  "plain_notifier = \<lparr>filter_pred = None, webhookURL = ''https://discord.example/hook''\<rparr>"

definition quiet_world :: world where
  "quiet_world =
     \<lparr>Getenv = (\<lambda>_. []), Get_result = (\<lambda>_. Inr \<lparr>StatusCode = 200\<rparr>),
      Post_result = (\<lambda>_ _ _. Inr \<lparr>StatusCode = 204\<rparr>), trace = []\<rparr>"

definition dojo_world :: "string \<Rightarrow> world" where
  "dojo_world url = quiet_world\<lparr>Getenv := (\<lambda>k. if k = ''DOJO_URL'' then url else [])\<rparr>"

definition failing_dojo_world :: world where
  "failing_dojo_world =
     (dojo_world ''https://dojo.example/ping'')
       \<lparr>Get_result := (\<lambda>_. Inl (TransportError ''connection refused''))\<rparr>"

definition post_world :: "(error + http_Response) \<Rightarrow> world" where
  "post_world outcome = quiet_world\<lparr>Post_result := (\<lambda>_ _ _. outcome)\<rparr>"

text \<open>
  Two messages: one whose content is a byte that is not UTF-8, and one as
  \<open>buildMessage\<close> makes them, with characters that the encoder escapes.
\<close>

definition invalid_message :: discordMessage where
  "invalid_message = \<lparr>Content = [CHR 0xFF], Embeds = None\<rparr>"

definition success_message :: discordMessage where
  "success_message =
     \<lparr>Content = [],
      Embeds = Some [\<lparr>Title = [CHR 0xE2, CHR 0x9C, CHR 0x85] @ '' SUCCESS'', Color = 1127128,
                      Description = ''Logs: <a&b>'' @ [CHR 0x0A, CHR 0x22]\<rparr>]\<rparr>"

section \<open>What the switch and \<open>buildMessage\<close> compute\<close>

lemma status_distinct:
  "Build_WORKING \<noteq> Build_SUCCESS" "Build_WORKING \<noteq> Build_FAILURE"
  "Build_WORKING \<noteq> Build_INTERNAL_ERROR" "Build_WORKING \<noteq> Build_TIMEOUT"
  "Build_SUCCESS \<noteq> Build_FAILURE" "Build_SUCCESS \<noteq> Build_INTERNAL_ERROR"
  "Build_SUCCESS \<noteq> Build_TIMEOUT" "Build_FAILURE \<noteq> Build_INTERNAL_ERROR"
  "Build_FAILURE \<noteq> Build_TIMEOUT" "Build_INTERNAL_ERROR \<noteq> Build_TIMEOUT"
  by (simp_all add: Build_Status_defs)

lemma switch_embeds:
  "fst (status_switch build None w) =
     (if handled_status (Status build)
      then Some [\<lparr>Title = table_title (Status build), Color = table_color (Status build),
                  Description = (if Status build = Build_SUCCESS
                    then description_body build @ [CHR 0x0A] @ ''Access: '' @ map_index (Substitutions build) ''_URL''
                    else description_body build)\<rparr>]
      else None)"
  unfolding status_switch_def handled_status_def table_title_def table_color_def
  by (auto simp: append_slice_def Build_Status_String_def Build_Status_defs)

lemma switch_world:
  "snd (status_switch build embeds w) =
     (if Status build = Build_SUCCESS then
        (if Contains (map_index (Substitutions build) ''_APP_NAME'') ''backend'' then callDojo w else w)
      else if handled_status (Status build) then w
      else emit (log_Infof ''Unknown status %s'' [Arg_Status (Status build)]) w)"
  unfolding status_switch_def handled_status_def
  by (auto simp: Build_Status_defs)

lemma buildMessage_result:
  "fst (buildMessage s build w) =
     (if handled_status (Status build)
      then (Some \<lparr>Content = [],
                   Embeds = Some [\<lparr>Title = table_title (Status build),
                                   Color = table_color (Status build),
                                   Description =
                                     (if GetRepoSource (Source build) \<noteq> None
                                         \<and> GetRepoName (GetRepoSource (Source build)) \<noteq> []
                                      then GetRepoName (GetRepoSource (Source build))
                                      else status_body build)\<rparr>]\<rparr>, None)
      else (None, None))"
proof -
  obtain es w2 where sw: "status_switch build None (emit (log_Infof ''repo info %+v'' [Arg_RepoSource (GetRepoSource (Source build))]) w) = (es, w2)"
    by (cases "status_switch build None (emit (log_Infof ''repo info %+v'' [Arg_RepoSource (GetRepoSource (Source build))]) w)")
  have es: "es = (if handled_status (Status build)
      then Some [\<lparr>Title = table_title (Status build), Color = table_color (Status build),
                  Description = status_body build\<rparr>]
      else None)"
    using switch_embeds [of build "emit (log_Infof ''repo info %+v'' [Arg_RepoSource (GetRepoSource (Source build))]) w"] sw
    by (simp add: status_body_def)
  show ?thesis
    unfolding buildMessage_def Let_def sw
    by (simp add: es len_slice_def set_first_Description_def)
qed

lemma buildMessage_world:
  "snd (buildMessage s build w) =
     (let w1 = emit (log_Infof ''repo info %+v'' [Arg_RepoSource (GetRepoSource (Source build))]) w in
      if Status build = Build_SUCCESS then
        (if Contains (map_index (Substitutions build) ''_APP_NAME'') ''backend'' then callDojo w1 else w1)
      else if handled_status (Status build) then w1
      else emit (log_Infof ''unhandled status - skipping notification %s'' [Arg_Status (Status build)])
             (emit (log_Infof ''Unknown status %s'' [Arg_Status (Status build)]) w1))"
proof -
  let ?w1 = "emit (log_Infof ''repo info %+v'' [Arg_RepoSource (GetRepoSource (Source build))]) w"
  obtain es w2 where sw: "status_switch build None ?w1 = (es, w2)"
    by (cases "status_switch build None ?w1")
  have es: "es = (if handled_status (Status build)
      then Some [\<lparr>Title = table_title (Status build), Color = table_color (Status build),
                  Description = status_body build\<rparr>]
      else None)"
    using switch_embeds [of build ?w1] sw by (simp add: status_body_def)
  have w2: "w2 = snd (status_switch build None ?w1)" using sw by simp
  have hs: "Status build = Build_SUCCESS \<Longrightarrow> handled_status (Status build)"
    by (simp add: handled_status_def)
  show ?thesis
    unfolding buildMessage_def Let_def sw
    using hs by (auto simp add: es w2 switch_world len_slice_def set_first_Description_def)
qed

lemma buildMessage_result_any_world:
  "fst (buildMessage s build w) = fst (buildMessage s build w')"
  by (simp add: buildMessage_result)

lemma SendNotification_unfold:
  "SendNotification s build w =
     (if shouldNotify s build then
        (let w1 = emit (log_Infof ''sending discord webhook for Build %q (status: %q)''
                          [Arg_string (Id_build build), Arg_Status (Status build)]) w;
             w2 = snd (buildMessage s build w1)
         in case fst (buildMessage s build w) of
              (_, Some err) \<Rightarrow> (Some (Errorf ''failed to write discord message: '' err), w2)
            | (None, None) \<Rightarrow> (None, w2)
            | (Some msg, None) \<Rightarrow>
                (case json_Marshal msg of
                   Inl err \<Rightarrow> (Some (Errorf ''Unable to marshal payload '' err), w2)
                 | Inr payload \<Rightarrow>
                     (let w4 = emit (http_Post (webhookURL s) ''application/json'' payload)
                                 (emit (log_Infof ''sending payload %s'' [Arg_string payload]) w2)
                      in case Post_result w (webhookURL s) ''application/json'' payload of
                           Inl err \<Rightarrow> (Some err, w4)
                         | Inr resp \<Rightarrow>
                             (None, emit (log_Infof ''got resp %+v'' [Arg_Response resp]) w4))))
      else (None, w))"
proof -
  let ?w1 = "emit (log_Infof ''sending discord webhook for Build %q (status: %q)''
                          [Arg_string (Id_build build), Arg_Status (Status build)]) w"
  have bm: "buildMessage s build ?w1 = (fst (buildMessage s build w), snd (buildMessage s build ?w1))"
    using buildMessage_result_any_world [of s build ?w1 w] by (metis prod.collapse)
  show ?thesis
    unfolding SendNotification_def shouldNotify_def Let_def
    by (subst bm) (auto split: option.splits prod.splits sum.splits)
qed

lemma Contains_sublist: "Contains s substr = sublist substr s"
  by (induction s) (simp_all add: sublist_Cons_right)

lemma Contains_iff: "Contains s substr = (\<exists>ps ss. s = ps @ substr @ ss)"
  by (simp add: Contains_sublist sublist_def)

lemma callDojo_trace:
  "trace (callDojo w) = trace w @
     (if Getenv w ''DOJO_URL'' = [] then []
      else [http_Get (Getenv w ''DOJO_URL''),
            (case Get_result w (Getenv w ''DOJO_URL'') of
               Inl err \<Rightarrow> log_Errorf ''Failed to call dojo %s'' [Arg_error err]
             | Inr _ \<Rightarrow> log_Infof ''Successfully called dojo'' [])])"
  by (simp add: callDojo_def Let_def emit_def split: sum.splits)

lemma callDojo_Gets:
  "filter is_Get (trace (callDojo w)) = filter is_Get (trace w) @
     (if Getenv w ''DOJO_URL'' = [] then [] else [http_Get (Getenv w ''DOJO_URL'')])"
  by (simp add: callDojo_trace split: sum.splits)

lemma callDojo_Posts: "filter is_Post (trace (callDojo w)) = filter is_Post (trace w)"
  by (simp add: callDojo_trace split: sum.splits)

lemma buildMessage_Gets:
  "filter is_Get (trace (snd (buildMessage s build w))) = filter is_Get (trace w) @
     (if Status build = Build_SUCCESS
         \<and> Contains (map_index (Substitutions build) ''_APP_NAME'') ''backend''
         \<and> Getenv w ''DOJO_URL'' \<noteq> []
      then [http_Get (Getenv w ''DOJO_URL'')] else [])"
  by (simp add: buildMessage_world Let_def callDojo_Gets) (simp add: emit_def)

lemma buildMessage_Posts:
  "filter is_Post (trace (snd (buildMessage s build w))) = filter is_Post (trace w)"
  by (simp add: buildMessage_world Let_def callDojo_Posts) (simp add: emit_def)

section \<open>UTF-8: encoding a decoded rune gives its bytes back\<close>

lemma mod_sub:
  fixes b :: nat
  assumes "k * m \<le> b" "b < k * m + m"
  shows "b mod m = b - k * m"
proof -
  have "b = (b - k * m) + k * m" using assms by simp
  then have "b mod m = (b - k * m) mod m" by (metis mod_mult_self1 mult.commute)
  also have "\<dots> = b - k * m" using assms by simp
  finally show ?thesis .
qed

lemma split2:
  fixes a c :: nat
  assumes "c < 64" "r = a * 64 + c"
  shows "r div 64 = a" "r mod 64 = c"
  using assms by simp_all

lemma split3:
  fixes a b c :: nat
  assumes "b < 64" "c < 64" "r = a * 4096 + b * 64 + c"
  shows "r div 4096 = a" "(r div 64) mod 64 = b" "r mod 64 = c"
proof -
  define q where "q = a * 64 + b"
  have r: "r = q * 64 + c" using assms(3) by (simp add: q_def)
  have d: "r div 64 = q" and m: "r mod 64 = c"
    using split2 [OF assms(2) r] by simp_all
  show "r mod 64 = c" by (rule m)
  show "(r div 64) mod 64 = b" using d split2 [OF assms(1) q_def] by simp
  have "r div 4096 = (r div 64) div 64" by (simp add: div_mult2_eq)
  then show "r div 4096 = a" using d split2 [OF assms(1) q_def] by simp
qed

lemma split4:
  fixes a b c d :: nat
  assumes "b < 64" "c < 64" "d < 64" "r = a * 262144 + b * 4096 + c * 64 + d"
  shows "r div 262144 = a" "(r div 4096) mod 64 = b" "(r div 64) mod 64 = c" "r mod 64 = d"
proof -
  define q where "q = a * 4096 + b * 64 + c"
  have r: "r = q * 64 + d" using assms(4) by (simp add: q_def)
  have d1: "r div 64 = q" and m: "r mod 64 = d"
    using split2 [OF assms(3) r] by simp_all
  show "r mod 64 = d" by (rule m)
  have s: "q div 4096 = a" "(q div 64) mod 64 = b" "q mod 64 = c"
    using split3 [OF assms(1) assms(2) q_def] by simp_all
  show "(r div 64) mod 64 = c" using d1 s(3) by simp
  have "r div 4096 = (r div 64) div 64" by (simp add: div_mult2_eq)
  then show "(r div 4096) mod 64 = b" using d1 s(2) by simp
  have "r div 262144 = (r div 64) div 4096" by (simp add: div_mult2_eq)
  then show "r div 262144 = a" using d1 s(1) by simp
qed

lemma enc2_arith:
  fixes b0 b1 :: nat
  assumes "0xC2 \<le> b0" "b0 \<le> 0xDF" "0x80 \<le> b1" "b1 \<le> 0xBF"
    and "r = (b0 mod 32) * 64 + b1 mod 64"
  shows "0x80 \<le> r" "r < 0x800" "0xC0 + r div 64 = b0" "0x80 + r mod 64 = b1"
proof -
  have m0: "b0 mod 32 = b0 - 6 * 32" using assms(1,2) by (intro mod_sub) simp_all
  have m1: "b1 mod 64 = b1 - 2 * 64" using assms(3,4) by (intro mod_sub) simp_all
  define a where "a = b0 - 192"
  define c where "c = b1 - 128"
  have a: "2 \<le> a" "a < 32" "b0 = 192 + a" using assms(1,2) by (simp_all add: a_def)
  have c: "c < 64" "b1 = 128 + c" using assms(3,4) by (simp_all add: c_def)
  have r: "r = a * 64 + c" using assms(5) m0 m1 by (simp add: a_def c_def)
  have dm: "r div 64 = a" "r mod 64 = c" using split2 [OF c(1) r] by simp_all
  show "0x80 \<le> r" using r a by simp
  show "r < 0x800" using r a c by simp
  show "0xC0 + r div 64 = b0" using dm a by simp
  show "0x80 + r mod 64 = b1" using dm c by simp
qed

lemma enc3_arith:
  fixes b0 b1 b2 :: nat
  assumes "0xE0 \<le> b0" "b0 \<le> 0xEF" "0x80 \<le> b1" "b1 \<le> 0xBF"
    and "b0 = 0xE0 \<longrightarrow> 0xA0 \<le> b1" "b0 = 0xED \<longrightarrow> b1 \<le> 0x9F"
    and "0x80 \<le> b2" "b2 \<le> 0xBF"
    and "r = (b0 mod 16) * 4096 + (b1 mod 64) * 64 + b2 mod 64"
  shows "0x800 \<le> r" "r < 0x10000" "\<not> (0xD800 \<le> r \<and> r \<le> 0xDFFF)"
    "0xE0 + r div 4096 = b0" "0x80 + (r div 64) mod 64 = b1" "0x80 + r mod 64 = b2"
proof -
  have m0: "b0 mod 16 = b0 - 14 * 16" using assms(1,2) by (intro mod_sub) simp_all
  have m1: "b1 mod 64 = b1 - 2 * 64" using assms(3,4) by (intro mod_sub) simp_all
  have m2: "b2 mod 64 = b2 - 2 * 64" using assms(7,8) by (intro mod_sub) simp_all
  define a where "a = b0 - 224"
  define b where "b = b1 - 128"
  define c where "c = b2 - 128"
  have a: "a < 16" "b0 = 224 + a" using assms(1,2) by (simp_all add: a_def)
  have b: "b < 64" "b1 = 128 + b" using assms(3,4) by (simp_all add: b_def)
  have c: "c < 64" "b2 = 128 + c" using assms(7,8) by (simp_all add: c_def)
  have lo: "a = 0 \<longrightarrow> 32 \<le> b" using assms(5) a b by simp
  have hi: "a = 13 \<longrightarrow> b < 32" using assms(6) a b by auto
  have r: "r = a * 4096 + b * 64 + c" using assms(9) m0 m1 m2 by (simp add: a_def b_def c_def)
  have dm: "r div 4096 = a" "(r div 64) mod 64 = b" "r mod 64 = c"
    using split3 [OF b(1) c(1) r] by simp_all
  show "0x800 \<le> r" using r lo by (cases "a = 0") simp_all
  show "r < 0x10000" using r a b c by simp
  show "\<not> (0xD800 \<le> r \<and> r \<le> 0xDFFF)"
  proof (cases "a = 13")
    case True
    then show ?thesis using r hi c by simp
  next
    case False
    then have "a < 13 \<or> 14 \<le> a" by arith
    then show ?thesis using r b c by auto
  qed
  show "0xE0 + r div 4096 = b0" using dm a by simp
  show "0x80 + (r div 64) mod 64 = b1" using dm b by simp
  show "0x80 + r mod 64 = b2" using dm c by simp
qed

lemma enc4_arith:
  fixes b0 b1 b2 b3 :: nat
  assumes "0xF0 \<le> b0" "b0 \<le> 0xF4" "0x80 \<le> b1" "b1 \<le> 0xBF"
    and "b0 = 0xF0 \<longrightarrow> 0x90 \<le> b1" "b0 = 0xF4 \<longrightarrow> b1 \<le> 0x8F"
    and "0x80 \<le> b2" "b2 \<le> 0xBF" "0x80 \<le> b3" "b3 \<le> 0xBF"
    and "r = (b0 mod 8) * 262144 + (b1 mod 64) * 4096 + (b2 mod 64) * 64 + b3 mod 64"
  shows "0x10000 \<le> r" "r \<le> 0x10FFFF"
    "0xF0 + r div 262144 = b0" "0x80 + (r div 4096) mod 64 = b1"
    "0x80 + (r div 64) mod 64 = b2" "0x80 + r mod 64 = b3"
proof -
  have m0: "b0 mod 8 = b0 - 30 * 8" using assms(1,2) by (intro mod_sub) simp_all
  have m1: "b1 mod 64 = b1 - 2 * 64" using assms(3,4) by (intro mod_sub) simp_all
  have m2: "b2 mod 64 = b2 - 2 * 64" using assms(7,8) by (intro mod_sub) simp_all
  have m3: "b3 mod 64 = b3 - 2 * 64" using assms(9,10) by (intro mod_sub) simp_all
  define a where "a = b0 - 240"
  define b where "b = b1 - 128"
  define c where "c = b2 - 128"
  define d where "d = b3 - 128"
  have a: "a \<le> 4" "b0 = 240 + a" using assms(1,2) by (simp_all add: a_def)
  have b: "b < 64" "b1 = 128 + b" using assms(3,4) by (simp_all add: b_def)
  have c: "c < 64" "b2 = 128 + c" using assms(7,8) by (simp_all add: c_def)
  have d: "d < 64" "b3 = 128 + d" using assms(9,10) by (simp_all add: d_def)
  have lo: "a = 0 \<longrightarrow> 16 \<le> b" using assms(5) a b by simp
  have hi: "a = 4 \<longrightarrow> b < 16" using assms(6) a b by auto
  have r: "r = a * 262144 + b * 4096 + c * 64 + d"
    using assms(11) m0 m1 m2 m3 by (simp add: a_def b_def c_def d_def)
  have dm: "r div 262144 = a" "(r div 4096) mod 64 = b" "(r div 64) mod 64 = c" "r mod 64 = d"
    using split4 [OF b(1) c(1) d(1) r] by simp_all
  show "0x10000 \<le> r" using r lo by (cases "a = 0") simp_all
  show "r \<le> 0x10FFFF"
  proof (cases "a = 4")
    case True
    then show ?thesis using r hi c d by simp
  next
    case False
    then have "a \<le> 3" using a by simp
    then show ?thesis using r b c d by simp
  qed
  show "0xF0 + r div 262144 = b0" using dm a by simp
  show "0x80 + (r div 4096) mod 64 = b1" using dm b by simp
  show "0x80 + (r div 64) mod 64 = b2" using dm c by simp
  show "0x80 + r mod 64 = b3" using dm d by simp
qed

lemma Decode_multibyte_cases:
  assumes "DecodeRuneInString (c # cs) = (r, sz)" and "0x80 \<le> (of_char c :: nat)"
    and "\<not> (r = RuneError \<and> sz = 1)"
  obtains
    (two) c1 t where "cs = c1 # t" "0xC2 \<le> (of_char c :: nat)" "(of_char c :: nat) \<le> 0xDF"
      "byte_in 0x80 0xBF c1" "r = (of_char c mod 32) * 64 + of_char c1 mod 64" "sz = 2"
  | (three) c1 c2 t where "cs = c1 # c2 # t" "0xE0 \<le> (of_char c :: nat)" "(of_char c :: nat) \<le> 0xEF"
      "byte_in (accept_lo (of_char c)) (accept_hi (of_char c)) c1" "byte_in 0x80 0xBF c2"
      "r = (of_char c mod 16) * 4096 + (of_char c1 mod 64) * 64 + of_char c2 mod 64" "sz = 3"
  | (four) c1 c2 c3 t where "cs = c1 # c2 # c3 # t" "0xF0 \<le> (of_char c :: nat)" "(of_char c :: nat) \<le> 0xF4"
      "byte_in (accept_lo (of_char c)) (accept_hi (of_char c)) c1" "byte_in 0x80 0xBF c2"
      "byte_in 0x80 0xBF c3"
      "r = (of_char c mod 8) * 262144 + (of_char c1 mod 64) * 4096
           + (of_char c2 mod 64) * 64 + of_char c3 mod 64" "sz = 4"
  using assms
  by (auto simp: Let_def split: if_splits list.splits)

lemma accept_bounds:
  assumes "byte_in (accept_lo b0) (accept_hi b0) c1"
  shows "0x80 \<le> (of_char c1 :: nat)" "(of_char c1 :: nat) \<le> 0xBF"
    "b0 = 0xE0 \<longrightarrow> 0xA0 \<le> (of_char c1 :: nat)" "b0 = 0xED \<longrightarrow> (of_char c1 :: nat) \<le> 0x9F"
    "b0 = 0xF0 \<longrightarrow> 0x90 \<le> (of_char c1 :: nat)" "b0 = 0xF4 \<longrightarrow> (of_char c1 :: nat) \<le> 0x8F"
  using assms by (auto simp: byte_in_def accept_lo_def accept_hi_def split: if_splits)

lemma Encode_Decode:
  assumes d: "DecodeRuneInString (c # cs) = (r, sz)" and hi: "0x80 \<le> (of_char c :: nat)"
    and ok: "\<not> (r = RuneError \<and> sz = 1)"
  shows "EncodeRune r = c # take (sz - 1) cs \<and> 1 \<le> sz \<and> sz - 1 \<le> length cs
         \<and> 0x80 \<le> r
         \<and> (\<forall>t. DecodeRuneInString (c # take (sz - 1) cs @ t) = (r, sz))"
  using d hi ok
proof (cases rule: Decode_multibyte_cases)
  case (two c1 t)
  have b1: "0x80 \<le> (of_char c1 :: nat)" "(of_char c1 :: nat) \<le> 0xBF"
    using two(4) by (simp_all add: byte_in_def)
  note a = enc2_arith [OF two(2) two(3) b1 two(5)]
  have e: "EncodeRune r = [c, c1]"
    using a by (simp add: EncodeRune_def)
  have p: "DecodeRuneInString (c # c1 # t') = (r, sz)" for t'
    using two hi by (simp add: Let_def)
  show ?thesis using e p a(1) two(1,6) by simp
next
  case (three c1 c2 t)
  note b1 = accept_bounds [OF three(4)]
  have b2: "0x80 \<le> (of_char c2 :: nat)" "(of_char c2 :: nat) \<le> 0xBF"
    using three(5) by (simp_all add: byte_in_def)
  note a = enc3_arith [OF three(2) three(3) b1(1) b1(2) b1(3) b1(4) b2 three(6)]
  have ns: "\<not> (0x10FFFF < r \<or> 0xD800 \<le> r \<and> r \<le> 0xDFFF)"
    using a(2,3) by simp
  have e: "EncodeRune r = [c, c1, c2]"
    unfolding EncodeRune_def using a(1,2,4,5,6) ns by auto
  have p: "DecodeRuneInString (c # c1 # c2 # t') = (r, sz)" for t'
    using three hi by (simp add: Let_def)
  show ?thesis using e p a(1) three(1,7) by simp
next
  case (four c1 c2 c3 t)
  note b1 = accept_bounds [OF four(4)]
  have b2: "0x80 \<le> (of_char c2 :: nat)" "(of_char c2 :: nat) \<le> 0xBF"
    using four(5) by (simp_all add: byte_in_def)
  have b3: "0x80 \<le> (of_char c3 :: nat)" "(of_char c3 :: nat) \<le> 0xBF"
    using four(6) by (simp_all add: byte_in_def)
  note a = enc4_arith [OF four(2) four(3) b1(1) b1(2) b1(5) b1(6) b2 b3 four(7)]
  have ns: "\<not> (0x10FFFF < r \<or> 0xD800 \<le> r \<and> r \<le> 0xDFFF)"
    using a(1,2) by simp
  have e: "EncodeRune r = [c, c1, c2, c3]"
    unfolding EncodeRune_def using a ns by auto
  have p: "DecodeRuneInString (c # c1 # c2 # c3 # t') = (r, sz)" for t'
    using four hi by (simp add: Let_def)
  show ?thesis using e p a(1) four(1,8) by simp
qed

lemma utf8_valid_append:
  "utf8_valid a \<Longrightarrow> utf8_valid b \<Longrightarrow> utf8_valid (a @ b)"
proof (induction a rule: utf8_valid.induct)
  case 1
  then show ?case by simp
next
  case (2 c cs)
  obtain r sz where d: "DecodeRuneInString (c # cs) = (r, sz)"
    by (cases "DecodeRuneInString (c # cs)")
  from "2.prems"(1) d have ok: "\<not> (r = RuneError \<and> sz = 1)"
    and v: "utf8_valid (drop (sz - 1) cs)" by simp_all
  have ih: "utf8_valid (drop (sz - 1) cs @ b)"
    using "2.IH" [OF d [symmetric] v "2.prems"(2)] .
  show ?case
  proof (cases "(of_char c :: nat) < 0x80")
    case True
    then have sz: "sz = 1" using d by (simp add: Let_def)
    have dd: "DecodeRuneInString (c # (cs @ b)) = (r, sz)"
      using True d by (simp add: Let_def)
    show ?thesis
      unfolding append_Cons utf8_valid.simps dd using ih ok sz by simp
  next
    case False
    then have hi: "0x80 \<le> (of_char c :: nat)" by simp
    from Encode_Decode [OF d hi ok]
    have l: "sz - 1 \<le> length cs"
      and p: "\<And>t. DecodeRuneInString (c # take (sz - 1) cs @ t) = (r, sz)"
      by blast+
    have eq: "cs @ b = take (sz - 1) cs @ (drop (sz - 1) cs @ b)" by simp
    have dd: "DecodeRuneInString (c # (cs @ b)) = (r, sz)"
      by (subst eq) (rule p)
    have dr: "drop (sz - 1) (cs @ b) = drop (sz - 1) cs @ b" using l by simp
    show ?thesis
      unfolding append_Cons utf8_valid.simps dd using ih ok l by simp
  qed
qed

section \<open>Strings and numbers are read back as they were written\<close>

lemma hex_val_hex_char: "d < 16 \<Longrightarrow> hex_val (hex_char d) = Some d"
  by (auto simp: hex_val_def hex_char_def Let_def)

lemma hex_val_digits: "hex_val (CHR ''0'') = Some 0" "hex_val (CHR ''2'') = Some 2"
  by (simp_all add: hex_val_def)

lemma unquote_ascii:
  assumes "(of_char c :: nat) < 0x80"
  shows "unquote_body ((if htmlSafe c then [c] else escape_ascii c) @ t)
         = cons_result [c] (unquote_body t)"
proof (cases "htmlSafe c")
  case True
  then show ?thesis by (auto simp: htmlSafe_def)
next
  case False
  define n where "n = (of_char c :: nat)"
  have n: "n < 128" "c = char_of n" using assms by (simp_all add: n_def)
  have hi: "n div 16 < 16" and lo: "n mod 16 < 16" using n(1) by simp_all
  have g: "getu4 (CHR ''0'' # CHR ''0'' # hex_char (n div 16) # hex_char (n mod 16) # t) = Some n"
    by (simp add: hex_val_digits hex_val_hex_char [OF hi] hex_val_hex_char [OF lo])
  have e: "EncodeRune n = [c]" using n by (simp add: EncodeRune_def)
  have s: "\<not> IsSurrogate n" using n(1) by (simp add: IsSurrogate_def)
  show ?thesis
    using False g e s
    by (auto simp: escape_ascii_def simple_escape_def n_def [symmetric])
qed

lemma unquote_multibyte:
  assumes d: "DecodeRuneInString (c # cs) = (r, sz)" and hi: "0x80 \<le> (of_char c :: nat)"
    and ok: "\<not> (r = RuneError \<and> sz = 1)"
    and ih: "unquote_body (appendString_body (drop (sz - 1) cs) @ CHR 0x22 # rest)
             = Some (drop (sz - 1) cs, rest)"
  shows "unquote_body (appendString_body (c # cs) @ CHR 0x22 # rest) = Some (c # cs, rest)"
proof -
  from Encode_Decode [OF d hi ok]
  have e: "EncodeRune r = c # take (sz - 1) cs" and l: "sz - 1 \<le> length cs"
    and p: "\<And>t. DecodeRuneInString (c # take (sz - 1) cs @ t) = (r, sz)"
    by blast+
  have c: "c \<noteq> CHR 0x22" "c \<noteq> CHR 0x5C" "\<not> (of_char c :: nat) < 0x20" "\<not> (of_char c :: nat) < 0x80"
    using hi by auto
  let ?X = "appendString_body (drop (sz - 1) cs) @ CHR 0x22 # rest"
  show ?thesis
  proof (cases "r = 0x2028 \<or> r = 0x2029")
    case True
    then have m: "r mod 16 < 16" "((2 * 16 + 0) * 16 + 2) * 16 + r mod 16 = r" by auto
    have g: "getu4 (CHR ''2'' # CHR ''0'' # CHR ''2'' # hex_char (r mod 16) # ?X) = Some r"
      using m(2) by (simp add: hex_val_digits hex_val_hex_char [OF m(1)])
    have s: "\<not> IsSurrogate r" using True by (auto simp: IsSurrogate_def)
    have a: "appendString_body (c # cs)
             = [CHR 0x5C, CHR ''u'', CHR ''2'', CHR ''0'', CHR ''2'', hex_char (r mod 16)]
               @ appendString_body (drop (sz - 1) cs)"
      using True d c(4) ok by auto
    show ?thesis
      unfolding a using g s e ih by (simp add: cons_result_def)
  next
    case False
    have a: "appendString_body (c # cs)
             = c # take (sz - 1) cs @ appendString_body (drop (sz - 1) cs)"
      using False d c(4) ok by auto
    have dr: "drop (sz - 1) (take (sz - 1) cs @ ?X) = ?X" using l by simp
    have "unquote_body (c # take (sz - 1) cs @ ?X)
          = cons_result (EncodeRune r) (unquote_body (drop (sz - 1) (take (sz - 1) cs @ ?X)))"
      using c p [of ?X] by (simp del: DecodeRuneInString.simps)
    then show ?thesis
      unfolding a using dr e ih by (simp add: cons_result_def)
  qed
qed

lemma unquote_appendString_body:
  "utf8_valid s \<Longrightarrow> unquote_body (appendString_body s @ CHR 0x22 # rest) = Some (s, rest)"
proof (induction s rule: utf8_valid.induct)
  case 1
  show ?case by simp
next
  case (2 c cs)
  obtain r sz where d: "DecodeRuneInString (c # cs) = (r, sz)"
    by (cases "DecodeRuneInString (c # cs)")
  from "2.prems" d have ok: "\<not> (r = RuneError \<and> sz = 1)"
    and v: "utf8_valid (drop (sz - 1) cs)" by simp_all
  have ih: "unquote_body (appendString_body (drop (sz - 1) cs) @ CHR 0x22 # rest)
            = Some (drop (sz - 1) cs, rest)"
    using "2.IH" [OF d [symmetric] v] .
  show ?case
  proof (cases "(of_char c :: nat) < 0x80")
    case True
    then have sz: "sz = 1" using d by (simp add: Let_def)
    have a: "appendString_body (c # cs)
             = (if htmlSafe c then [c] else escape_ascii c) @ appendString_body cs"
      using True by simp
    show ?thesis
      unfolding a using unquote_ascii [OF True, of "appendString_body cs @ CHR 0x22 # rest"] ih sz
      by (simp add: cons_result_def)
  next
    case False
    then have hi: "0x80 \<le> (of_char c :: nat)" by simp
    show ?thesis by (rule unquote_multibyte [OF d hi ok ih])
  qed
qed

lemma is_digit_digit_char: "d < 10 \<Longrightarrow> is_digit (digit_char d)"
  by (simp add: is_digit_def digit_char_def)

lemma digit_char_val: "d < 10 \<Longrightarrow> (of_char (digit_char d) :: nat) - 48 = d"
  by (simp add: digit_char_def)

lemma digit_char_not_zero:
  assumes "d < 10" "0 < d"
  shows "digit_char d \<noteq> CHR ''0''"
proof
  assume "digit_char d = CHR ''0''"
  then have "(of_char (digit_char d) :: nat) = of_char (CHR ''0'')" by simp
  then show False using assms by (simp add: digit_char_def)
qed

lemma digits10_all_digits: "list_all is_digit (digits10 n)"
proof (induction n rule: digits10.induct)
  case (1 n)
  show ?case
  proof (cases "n < 10")
    case True
    then show ?thesis by (subst digits10.simps) (simp add: is_digit_digit_char)
  next
    case False
    then show ?thesis using 1 by (subst digits10.simps) (simp add: is_digit_digit_char)
  qed
qed

lemma digits10_nonempty: "digits10 n \<noteq> []"
  by (subst digits10.simps) simp

lemma digits_val_append: "digits_val acc (xs @ ys) = digits_val (digits_val acc xs) ys"
  by (induction xs arbitrary: acc) simp_all

lemma digits_val_digits10: "digits_val 0 (digits10 n) = n"
proof (induction n rule: digits10.induct)
  case (1 n)
  show ?case
  proof (cases "n < 10")
    case True
    then show ?thesis by (subst digits10.simps) (simp add: digit_char_val)
  next
    case False
    then show ?thesis
      using 1 by (subst digits10.simps) (simp add: digits_val_append digit_char_val)
  qed
qed

lemma digits10_no_leading_zero: "0 < n \<Longrightarrow> hd (digits10 n) \<noteq> CHR ''0''"
proof (induction n rule: digits10.induct)
  case (1 n)
  show ?case
  proof (cases "n < 10")
    case True
    then show ?thesis using "1.prems" by (subst digits10.simps) (simp add: digit_char_not_zero)
  next
    case False
    then have "0 < n div 10" by simp
    then show ?thesis
      using 1 False by (subst digits10.simps) (simp add: digits10_nonempty)
  qed
qed

lemma digits10_length_one: "1 < length (digits10 n) \<Longrightarrow> 0 < n"
  by (subst (asm) digits10.simps) (auto split: if_splits)

lemma digits10_not_minus: "hd (digits10 n) \<noteq> CHR ''-''"
  using digits10_all_digits [of n] digits10_nonempty [of n]
  by (cases "digits10 n") (auto simp: is_digit_def)

lemma takeWhile_digits10:
  assumes "rest = [] \<or> \<not> is_digit (hd rest)"
  shows "takeWhile is_digit (digits10 n @ rest) = digits10 n"
    and "dropWhile is_digit (digits10 n @ rest) = rest"
proof -
  have a: "\<forall>x\<in>set (digits10 n). is_digit x"
    using digits10_all_digits [of n] by (simp add: list_all_iff)
  have r: "takeWhile is_digit rest = []" "dropWhile is_digit rest = rest"
    using assms by (cases rest; simp)+
  show "takeWhile is_digit (digits10 n @ rest) = digits10 n"
    using a r by (simp add: takeWhile_append2)
  show "dropWhile is_digit (digits10 n @ rest) = rest"
    using a r by (simp add: dropWhile_append2)
qed

lemma parse_int_FormatInt:
  fixes w :: "64 word"
  assumes "rest = [] \<or> \<not> is_digit (hd rest)"
  shows "parse_int (FormatInt (sint w) @ rest) = Some (w, rest)"
proof -
  have lo: "- (2 ^ 63) \<le> sint w" and hi: "sint w < 2 ^ 63"
    using sint_ge [of w] sint_lt [of w] by simp_all
  have lz: "\<not> (1 < length (digits10 n) \<and> hd (digits10 n) = CHR ''0'')" for n
    using digits10_length_one [of n] digits10_no_leading_zero [of n] by blast
  show ?thesis
  proof (cases "sint w < 0")
    case True
    let ?n = "nat (- sint w)"
    have f: "FormatInt (sint w) @ rest = CHR ''-'' # digits10 ?n @ rest"
      using True by (simp add: FormatInt_def)
    have v: "- int (digits_val 0 (digits10 ?n)) = sint w"
      using True by (simp add: digits_val_digits10)
    show ?thesis
      unfolding f parse_int_def
      using takeWhile_digits10 [OF assms, of ?n] lz [of ?n] v lo hi
      by (simp add: Let_def digits10_nonempty)
  next
    case False
    let ?n = "nat (sint w)"
    have f: "FormatInt (sint w) @ rest = digits10 ?n @ rest"
      using False by (simp add: FormatInt_def)
    have v: "int (digits_val 0 (digits10 ?n)) = sint w"
      using False by (simp add: digits_val_digits10)
    have nm: "\<not> (case digits10 ?n @ rest of c # _ \<Rightarrow> c = CHR ''-'' | [] \<Rightarrow> False)"
      using digits10_not_minus [of ?n] digits10_nonempty [of ?n]
      by (cases "digits10 ?n") auto
    show ?thesis
      unfolding f parse_int_def
      using takeWhile_digits10 [OF assms, of ?n] lz [of ?n] v lo hi nm
      by (simp add: Let_def digits10_nonempty)
  qed
qed

section \<open>The message is read back as it was written\<close>

lemma appendString_keys:
  "appendString ''title'' @ '':'' = key ''title''"
  "appendString ''color'' @ '':'' = key ''color''"
  "appendString ''description'' @ '':'' = key ''description''"
  "appendString ''content'' @ '':'' = key ''content''"
  "appendString ''embeds'' @ '':'' = key ''embeds''"
  by (simp_all add: appendString_def key_def htmlSafe_def)

lemma expect_append: "expect lit (lit @ r) = Some r"
  by (simp add: expect_def)

lemma parse_string_appendString:
  "utf8_valid s \<Longrightarrow> parse_string (appendString s @ rest) = Some (s, rest)"
  by (simp add: parse_string_def appendString_def unquote_appendString_body)

lemma Marshal_embed_layout:
  "Marshal_embed e @ rest =
     (''{'' @ key ''title'') @ appendString (Title e)
     @ ('','' @ key ''color'') @ FormatInt (sint (Color e))
     @ ('','' @ key ''description'') @ appendString (Description e) @ ''}'' @ rest"
proof -
  have "Marshal_embed e =
     ''{'' @ (appendString ''title'' @ '':'') @ appendString (Title e)
     @ '','' @ (appendString ''color'' @ '':'') @ FormatInt (sint (Color e))
     @ '','' @ (appendString ''description'' @ '':'') @ appendString (Description e) @ ''}''"
    by (simp add: Marshal_embed_def)
  then show ?thesis by (simp only: appendString_keys append_assoc)
qed

lemma parse_embed_Marshal_embed:
  assumes "embed_valid e"
  shows "parse_embed (Marshal_embed e @ rest) = Some (e, rest)"
proof -
  let ?s6 = "''}'' @ rest"
  let ?s5 = "appendString (Description e) @ ?s6"
  let ?s4 = "('','' @ key ''description'') @ ?s5"
  let ?s3 = "FormatInt (sint (Color e)) @ ?s4"
  let ?s2 = "('','' @ key ''color'') @ ?s3"
  let ?s1 = "appendString (Title e) @ ?s2"
  have v: "utf8_valid (Title e)" "utf8_valid (Description e)"
    using assms by (simp_all add: embed_valid_def)
  have nd: "?s4 = [] \<or> \<not> is_digit (hd ?s4)" by (simp add: is_digit_def)
  have 1: "expect (''{'' @ key ''title'') ((''{'' @ key ''title'') @ ?s1) = Some ?s1"
    by (rule expect_append)
  have 2: "parse_string ?s1 = Some (Title e, ?s2)"
    by (rule parse_string_appendString [OF v(1)])
  have 3: "expect ('','' @ key ''color'') ?s2 = Some ?s3" by (rule expect_append)
  have 4: "parse_int ?s3 = Some (Color e, ?s4)" by (rule parse_int_FormatInt [OF nd])
  have 5: "expect ('','' @ key ''description'') ?s4 = Some ?s5" by (rule expect_append)
  have 6: "parse_string ?s5 = Some (Description e, ?s6)"
    by (rule parse_string_appendString [OF v(2)])
  have 7: "expect ''}'' ?s6 = Some rest" by (rule expect_append)
  have l: "Marshal_embed e @ rest = (''{'' @ key ''title'') @ ?s1"
    by (simp only: Marshal_embed_layout append_assoc)
  show ?thesis
    unfolding l parse_embed_def
    by (simp only: 1 2 3 4 5 6 7 option.case prod.case) simp
qed

lemma parse_elems_join:
  assumes "list_all embed_valid (e # es)"
  shows "parse_elems (join_comma (map Marshal_embed (e # es)) @ CHR '']'' # rest)
         = Some (e # es, rest)"
  using assms
proof (induction es arbitrary: e)
  case Nil
  then have v: "embed_valid e" by simp
  show ?case
    by (subst parse_elems.simps) (simp add: parse_embed_Marshal_embed [OF v])
next
  case (Cons e' es)
  then have v: "embed_valid e" and vs: "list_all embed_valid (e' # es)" by simp_all
  have j: "join_comma (map Marshal_embed (e # e' # es)) @ CHR '']'' # rest
           = Marshal_embed e @ (CHR '','' # join_comma (map Marshal_embed (e' # es)) @ CHR '']'' # rest)"
    by simp
  show ?case
    unfolding j using Cons.IH [OF vs]
    by (subst parse_elems.simps) (simp add: parse_embed_Marshal_embed [OF v])
qed

lemma Marshal_embed_first: "\<exists>t. Marshal_embed e = CHR ''{'' # t"
  by (simp add: Marshal_embed_def)

lemma parse_embeds_Marshal_embeds:
  assumes "case s of None \<Rightarrow> True | Some es \<Rightarrow> list_all embed_valid es"
  shows "parse_embeds (Marshal_embeds s @ rest) = Some (s, rest)"
proof (cases s)
  case None
  then show ?thesis by (simp add: parse_embeds_def Marshal_embeds_def)
next
  case (Some es)
  show ?thesis
  proof (cases es)
    case Nil
    then show ?thesis using Some by (simp add: parse_embeds_def Marshal_embeds_def)
  next
    case (Cons e es')
    have v: "list_all embed_valid (e # es')" using assms Some Cons by simp
    obtain t where t: "Marshal_embed e = CHR ''{'' # t"
      using Marshal_embed_first by blast
    obtain u where u: "join_comma (map Marshal_embed (e # es')) @ CHR '']'' # rest = CHR ''{'' # u"
      using t by (cases es') auto
    have "parse_embeds (CHR ''['' # join_comma (map Marshal_embed (e # es')) @ CHR '']'' # rest)
          = Some (Some (e # es'), rest)"
      using parse_elems_join [OF v, of rest] u
      by (simp add: parse_embeds_def)
    then show ?thesis using Some Cons by (simp add: Marshal_embeds_def)
  qed
qed

lemma json_Unmarshal_Marshal:
  assumes "message_valid m"
  shows "\<exists>payload. json_Marshal m = Inr payload \<and> json_Unmarshal payload = Some m"
proof -
  let ?s3 = "Marshal_embeds (Embeds m) @ ''}''"
  let ?s2 = "('','' @ key ''embeds'') @ ?s3"
  let ?s1 = "appendString (Content m) @ ?s2"
  let ?p = "(''{'' @ key ''content'') @ ?s1"
  have v: "utf8_valid (Content m)"
    "case Embeds m of None \<Rightarrow> True | Some es \<Rightarrow> list_all embed_valid es"
    using assms by (simp_all add: message_valid_def)
  have "json_Marshal m =
     Inr (''{'' @ (appendString ''content'' @ '':'') @ appendString (Content m)
          @ '','' @ (appendString ''embeds'' @ '':'') @ Marshal_embeds (Embeds m) @ ''}'')"
    by (simp add: json_Marshal_def)
  then have p: "json_Marshal m = Inr ?p"
    by (simp only: appendString_keys append_assoc)
  have 1: "expect (''{'' @ key ''content'') ?p = Some ?s1" by (rule expect_append)
  have 2: "parse_string ?s1 = Some (Content m, ?s2)"
    by (rule parse_string_appendString [OF v(1)])
  have 3: "expect ('','' @ key ''embeds'') ?s2 = Some ?s3" by (rule expect_append)
  have 4: "parse_embeds ?s3 = Some (Embeds m, ''}'')"
    by (rule parse_embeds_Marshal_embeds [OF v(2)])
  have "json_Unmarshal ?p = Some m"
    unfolding json_Unmarshal_def
    by (simp only: 1 2 3 4 option.case prod.case) simp
  with p show ?thesis by blast
qed

lemma success_message_valid: "message_valid success_message"
  by (simp add: message_valid_def success_message_def embed_valid_def Let_def
      byte_in_def accept_lo_def accept_hi_def RuneError_def)

lemma invalid_payload:
  "json_Marshal invalid_message
   = Inr (''{'' @ key ''content'' @ [CHR 0x22, CHR 0x5C] @ ''ufffd'' @ [CHR 0x22]
          @ '','' @ key ''embeds'' @ ''null}'')"
  by (simp add: json_Marshal_def invalid_message_def appendString_def key_def htmlSafe_def
      Marshal_embeds_def RuneError_def)

section \<open>The messages of \<open>buildMessage\<close> are read back as they were written\<close>

lemma table_title_valid: "utf8_valid (table_title st)"
  by (simp add: table_title_def Let_def byte_in_def accept_lo_def accept_hi_def RuneError_def)

lemma status_body_valid:
  assumes "build_valid build"
  shows "utf8_valid (status_body build)"
proof -
  have l: "utf8_valid ''Build ID: ''" "utf8_valid [CHR 0x0A]" "utf8_valid ''Service: ''"
    "utf8_valid ''Environment: ''" "utf8_valid ''Logs: ''" "utf8_valid ''Access: ''"
    by (simp_all add: Let_def RuneError_def)
  have v: "utf8_valid (Id_build build)" "utf8_valid (ProjectId build)" "utf8_valid (LogUrl build)"
    "utf8_valid (map_index (Substitutions build) ''_APP_NAME'')"
    "utf8_valid (map_index (Substitutions build) ''_URL'')"
    using assms by (simp_all add: build_valid_def)
  have b: "utf8_valid (description_body build)"
    unfolding description_body_def
    by (intro utf8_valid_append l v)
  have a: "utf8_valid (description_body build @ [CHR 0x0A] @ ''Access: ''
            @ map_index (Substitutions build) ''_URL'')"
    by (intro utf8_valid_append l v b)
  show ?thesis using a b by (simp add: status_body_def)
qed

lemma buildMessage_message_valid:
  assumes "build_valid build" and "fst (fst (buildMessage s build w)) = Some msg"
  shows "message_valid msg"
proof -
  have r: "utf8_valid (GetRepoName (GetRepoSource (Source build)))"
    using assms(1) by (simp add: build_valid_def)
  have "utf8_valid []" by simp
  then show ?thesis
    using assms(2) r status_body_valid [OF assms(1)] table_title_valid [of "Status build"]
    by (auto simp: buildMessage_result message_valid_def embed_valid_def split: if_splits)
qed

lemma buildMessage_payload_roundtrip:
  assumes "build_valid build" and "fst (fst (buildMessage s build w)) = Some msg"
  shows "\<exists>payload. json_Marshal msg = Inr payload \<and> json_Unmarshal payload = Some msg"
  by (rule json_Unmarshal_Marshal [OF buildMessage_message_valid [OF assms]])

section \<open>The claims\<close>

text \<open>
  Claim C1. For every build whose status is WORKING, SUCCESS, FAILURE, \<open>INTERNAL_ERROR\<close> or
  TIMEOUT, whatever its substitutions, \<open>buildMessage\<close> returns a message with exactly one
  embed and no error; the title and the colour of the embed are those of the table for
  the status. A message that \<open>buildMessage\<close> returns never has another number of embeds
  than one.
\<close>

theorem C1_one_embed_title_color:
  "(handled_status (Status build) \<longrightarrow>
      (\<exists>e. fst (buildMessage s build w) = (Some \<lparr>Content = [], Embeds = Some [e]\<rparr>, None)
           \<and> Title e = table_title (Status build) \<and> Color e = table_color (Status build)))
   \<and> (\<forall>m. fst (fst (buildMessage s build w)) = Some m \<longrightarrow> len_slice (Embeds m) = 1)"
  by (simp add: buildMessage_result len_slice_def)

theorem C1_one_embed_title_color_witness:
  "handled_status (Status (test_build\<lparr>Status := Build_TIMEOUT\<rparr>))
   \<and> (\<exists>e. fst (buildMessage plain_notifier (test_build\<lparr>Status := Build_TIMEOUT\<rparr>) quiet_world)
            = (Some \<lparr>Content = [], Embeds = Some [e]\<rparr>, None)
          \<and> Title e = [CHR 0xE2, CHR 0x9D, CHR 0x8C] @ '' ERROR - TIMEOUT''
          \<and> Color e = 14177041)
   \<and> len_slice (Embeds (the (fst (fst (buildMessage plain_notifier (test_build\<lparr>Status := Build_TIMEOUT\<rparr>) quiet_world))))) = 1"
proof -
  let ?b = "test_build\<lparr>Status := Build_TIMEOUT\<rparr>"
  have h: "handled_status (Status ?b)" by (simp add: handled_status_def)
  have tt: "table_title (Status ?b) = [CHR 0xE2, CHR 0x9D, CHR 0x8C] @ '' ERROR - TIMEOUT''"
    by (simp add: table_title_def Build_Status_defs)
  have tc: "table_color (Status ?b) = 14177041"
    by (simp add: table_color_def Build_Status_defs)
  from C1_one_embed_title_color [of ?b plain_notifier quiet_world] h
  obtain e where e: "fst (buildMessage plain_notifier ?b quiet_world) = (Some \<lparr>Content = [], Embeds = Some [e]\<rparr>, None)"
    "Title e = table_title (Status ?b)" "Color e = table_color (Status ?b)"
    and one: "\<forall>m. fst (fst (buildMessage plain_notifier ?b quiet_world)) = Some m \<longrightarrow> len_slice (Embeds m) = 1"
    by blast
  from e(1) one have "len_slice (Embeds (the (fst (fst (buildMessage plain_notifier ?b quiet_world))))) = 1"
    by simp
  with h e tt tc show ?thesis by metis
qed

text \<open>
  Claim C2. For every build whose status is none of the five, \<open>buildMessage\<close> returns
  a nil message and a nil error, and \<open>SendNotification\<close> returns nil, issues no POST and
  leaves in the trace at most its four log lines: the payload is never marshalled, as
  the log line of the payload is not there.
\<close>

theorem C2_unknown_status_no_message:
  assumes "\<not> handled_status (Status build)"
  shows "fst (buildMessage s build w) = (None, None)
    \<and> fst (SendNotification s build w) = None
    \<and> filter is_Post (trace (snd (SendNotification s build w))) = filter is_Post (trace w)
    \<and> snd (SendNotification s build w) =
        (if shouldNotify s build then
           w\<lparr>trace := trace w @
             [log_Infof ''sending discord webhook for Build %q (status: %q)''
                [Arg_string (Id_build build), Arg_Status (Status build)],
              log_Infof ''repo info %+v'' [Arg_RepoSource (GetRepoSource (Source build))],
              log_Infof ''Unknown status %s'' [Arg_Status (Status build)],
              log_Infof ''unhandled status - skipping notification %s''
                [Arg_Status (Status build)]]\<rparr>
         else w)"
proof -
  let ?w1 = "emit (log_Infof ''sending discord webhook for Build %q (status: %q)''
                [Arg_string (Id_build build), Arg_Status (Status build)]) w"
  have ns: "Status build \<noteq> Build_SUCCESS"
    using assms by (auto simp: handled_status_def)
  have r: "\<And>w'. fst (buildMessage s build w') = (None, None)"
    using assms by (simp add: buildMessage_result)
  have bw: "snd (buildMessage s build ?w1) =
      emit (log_Infof ''unhandled status - skipping notification %s'' [Arg_Status (Status build)])
       (emit (log_Infof ''Unknown status %s'' [Arg_Status (Status build)])
         (emit (log_Infof ''repo info %+v'' [Arg_RepoSource (GetRepoSource (Source build))]) ?w1))"
    using assms ns by (simp add: buildMessage_world Let_def)
  have bm: "buildMessage s build ?w1 = ((None, None), snd (buildMessage s build ?w1))"
    using r [of ?w1] by (metis prod.collapse)
  have sn: "SendNotification s build w =
      (None, if shouldNotify s build then snd (buildMessage s build ?w1) else w)"
    unfolding SendNotification_def shouldNotify_def Let_def
    by (subst bm) (simp split: option.splits)
  show ?thesis
    unfolding sn bw r by (simp add: emit_def)
qed

theorem C2_unknown_status_no_message_witness:
  "\<not> handled_status (Status (test_build\<lparr>Status := Build_CANCELLED\<rparr>))
   \<and> fst (buildMessage plain_notifier (test_build\<lparr>Status := Build_CANCELLED\<rparr>) quiet_world) = (None, None)
   \<and> fst (SendNotification plain_notifier (test_build\<lparr>Status := Build_CANCELLED\<rparr>) quiet_world) = None
   \<and> filter is_Post (trace (snd (SendNotification plain_notifier (test_build\<lparr>Status := Build_CANCELLED\<rparr>) quiet_world))) = []"
proof -
  let ?b = "test_build\<lparr>Status := Build_CANCELLED\<rparr>"
  have h: "\<not> handled_status (Status ?b)"
    by (simp add: handled_status_def Build_Status_defs)
  have t: "trace quiet_world = []" by (simp add: quiet_world_def)
  show ?thesis
    using C2_unknown_status_no_message [OF h, of plain_notifier quiet_world] h t by simp
qed

text \<open>
  Claim C3, as amended. The claim as stated fails for a repository reference whose name
  is the empty string (the last theorem of the three below: the description stays the body of the
  status). When the reference is present, its name is not empty and the status is one
  of the five, the description of the embed is the repository name alone.
\<close>

theorem C3_overlay_nonempty_name:
  assumes "GetRepoSource (Source build) = Some r" and "RepoName r \<noteq> []"
    and "handled_status (Status build)"
  shows "embed_descriptions (fst (fst (buildMessage s build w))) = [RepoName r]"
  using assms by (simp add: buildMessage_result embed_descriptions_def GetRepoName_def)

theorem C3_overlay_nonempty_name_witness:
  "GetRepoSource (Source (repo_build ''R'')) = Some \<lparr>RepoName = ''R''\<rparr>
   \<and> RepoName \<lparr>RepoName = ''R''\<rparr> \<noteq> []
   \<and> handled_status (Status (repo_build ''R''))
   \<and> Status (repo_build ''R'') = Build_SUCCESS
   \<and> embed_descriptions (fst (fst (buildMessage plain_notifier (repo_build ''R'') quiet_world))) = [''R'']"
proof -
  have g: "GetRepoSource (Source (repo_build ''R'')) = Some \<lparr>RepoName = ''R''\<rparr>"
    by (simp add: repo_build_def GetRepoSource_def)
  have n: "RepoName \<lparr>RepoName = ''R''\<rparr> \<noteq> []" by simp
  have st: "Status (repo_build ''R'') = Build_SUCCESS"
    by (simp add: repo_build_def test_build_def)
  have h: "handled_status (Status (repo_build ''R''))"
    by (simp add: st handled_status_def)
  show ?thesis
    using C3_overlay_nonempty_name [OF g n h, of plain_notifier quiet_world] g h st by simp
qed

theorem C3_overlay_counterexample:
  "GetRepoSource (Source (repo_build [])) = Some \<lparr>RepoName = []\<rparr>
   \<and> embed_descriptions (fst (fst (buildMessage plain_notifier (repo_build []) quiet_world)))
       = [''Build ID: some-build-id'' @ [CHR 0x0A] @ ''Service: my-app'' @ [CHR 0x0A]
          @ ''Environment: my-project-id'' @ [CHR 0x0A]
          @ ''Logs: https://some.example.com/log/url?foo=bar'' @ [CHR 0x0A]
          @ ''Access: https://some.example.com'']
   \<and> embed_descriptions (fst (fst (buildMessage plain_notifier (repo_build []) quiet_world)))
       \<noteq> [RepoName \<lparr>RepoName = []\<rparr>]"
  by (simp add: buildMessage_result embed_descriptions_def repo_build_def test_build_def
      GetRepoSource_def GetRepoName_def handled_status_def status_body_def
      description_body_def map_index_def)

text \<open>
  Claim C10. When the repository reference is present and its name is the empty string,
  the overlay is not applied: the description of the embed is the body of the status,
  and the message is the one of the same build without a source.
\<close>

theorem C10_empty_repo_name_keeps_body:
  assumes "GetRepoSource (Source build) = Some r" and "RepoName r = []"
    and "handled_status (Status build)"
  shows "embed_descriptions (fst (fst (buildMessage s build w))) = [status_body build]
    \<and> fst (buildMessage s build w) = fst (buildMessage s (build\<lparr>Source := None\<rparr>) w)"
  using assms
  by (simp add: buildMessage_result embed_descriptions_def GetRepoName_def GetRepoSource_def
      status_body_def description_body_def)

theorem C10_empty_repo_name_keeps_body_witness:
  "GetRepoSource (Source (repo_build [])) = Some \<lparr>RepoName = []\<rparr>
   \<and> handled_status (Status (repo_build []))
   \<and> embed_descriptions (fst (fst (buildMessage plain_notifier (repo_build []) quiet_world)))
       = [status_body (repo_build [])]
   \<and> fst (buildMessage plain_notifier (repo_build []) quiet_world)
       = fst (buildMessage plain_notifier ((repo_build [])\<lparr>Source := None\<rparr>) quiet_world)"
proof -
  have g: "GetRepoSource (Source (repo_build [])) = Some \<lparr>RepoName = []\<rparr>"
    by (simp add: repo_build_def GetRepoSource_def)
  have n: "RepoName \<lparr>RepoName = []\<rparr> = []" by simp
  have h: "handled_status (Status (repo_build []))"
    by (simp add: repo_build_def test_build_def handled_status_def)
  show ?thesis
    using C10_empty_repo_name_keeps_body [OF g n h, of plain_notifier quiet_world] g h by blast
qed

text \<open>
  Claim C4. When \<open>_APP_NAME\<close> is absent from the substitutions or is the empty string,
  \<open>SendNotification\<close> returns nil and leaves the world as it was, whatever the status and
  the filter: no log line, no message, no request.
\<close>

theorem C4_gate_needs_app_name:
  assumes "Substitutions build ''_APP_NAME'' = None \<or> Substitutions build ''_APP_NAME'' = Some []"
  shows "SendNotification s build w = (None, w) \<and> \<not> shouldNotify s build"
  using assms by (auto simp: SendNotification_def shouldNotify_def map_index_def)

theorem C4_gate_needs_app_name_witness:
  "Substitutions (test_build\<lparr>Substitutions := Map.empty\<rparr>) ''_APP_NAME'' = None
   \<and> SendNotification plain_notifier (test_build\<lparr>Substitutions := Map.empty\<rparr>) quiet_world
       = (None, quiet_world)
   \<and> Substitutions (test_build\<lparr>Substitutions := [''_APP_NAME'' \<mapsto> []]\<rparr>) ''_APP_NAME'' = Some []
   \<and> SendNotification plain_notifier (test_build\<lparr>Substitutions := [''_APP_NAME'' \<mapsto> []]\<rparr>) quiet_world
       = (None, quiet_world)"
proof -
  let ?a = "test_build\<lparr>Substitutions := Map.empty\<rparr>"
  let ?e = "test_build\<lparr>Substitutions := [''_APP_NAME'' \<mapsto> []]\<rparr>"
  have a: "Substitutions ?a ''_APP_NAME'' = None \<or> Substitutions ?a ''_APP_NAME'' = Some []"
    by simp
  have e: "Substitutions ?e ''_APP_NAME'' = None \<or> Substitutions ?e ''_APP_NAME'' = Some []"
    by simp
  show ?thesis
    using C4_gate_needs_app_name [OF a, of plain_notifier quiet_world]
      C4_gate_needs_app_name [OF e, of plain_notifier quiet_world]
    by simp
qed

text \<open>
  Claim C5, as amended. The claim as stated fails when \<open>DOJO_URL\<close> is empty (the last
  theorem of the three below: status SUCCESS, \<open>_APP_NAME\<close> containing \<open>backend\<close>, and no GET). The GETs
  that \<open>buildMessage\<close> adds to the trace are exactly one, to the URL of \<open>DOJO_URL\<close>, when
  the status is SUCCESS, \<open>_APP_NAME\<close> has \<open>backend\<close> as a substring and \<open>DOJO_URL\<close> is not
  empty, and none otherwise.
\<close>

theorem C5_secondary_trigger:
  "filter is_Get (trace (snd (buildMessage s build w))) =
     filter is_Get (trace w) @
       (if Status build = Build_SUCCESS
           \<and> (\<exists>ps ss. map_index (Substitutions build) ''_APP_NAME'' = ps @ ''backend'' @ ss)
           \<and> Getenv w ''DOJO_URL'' \<noteq> []
        then [http_Get (Getenv w ''DOJO_URL'')] else [])"
  by (simp only: buildMessage_Gets Contains_iff)

theorem C5_secondary_trigger_witness:
  "filter is_Get (trace (snd (buildMessage plain_notifier (backend_build ''my-backend-svc'')
       (dojo_world ''https://dojo.example/ping'')))) = [http_Get ''https://dojo.example/ping'']
   \<and> filter is_Get (trace (snd (buildMessage plain_notifier (backend_build ''my-frontend-svc'')
       (dojo_world ''https://dojo.example/ping'')))) = []
   \<and> filter is_Get (trace (snd (buildMessage plain_notifier (backend_build ''my-Backend-svc'')
       (dojo_world ''https://dojo.example/ping'')))) = []
   \<and> filter is_Get (trace (snd (buildMessage plain_notifier
       ((backend_build ''my-backend-svc'')\<lparr>Status := Build_WORKING\<rparr>)
       (dojo_world ''https://dojo.example/ping'')))) = []"
proof -
  let ?w = "dojo_world ''https://dojo.example/ping''"
  have t: "trace ?w = []" "Getenv ?w ''DOJO_URL'' = ''https://dojo.example/ping''"
    by (simp_all add: dojo_world_def quiet_world_def)
  have a: "map_index (Substitutions (backend_build app)) ''_APP_NAME'' = app" for app
    by (simp add: backend_build_def map_index_def)
  have st: "Status (backend_build app) = Build_SUCCESS" for app
    by (simp add: backend_build_def test_build_def)
  have c1: "\<exists>ps ss. ''my-backend-svc'' = ps @ ''backend'' @ ss"
    using Contains_iff [of "''my-backend-svc''" "''backend''"] by simp
  have c2: "\<not> (\<exists>ps ss. ''my-frontend-svc'' = ps @ ''backend'' @ ss)"
    using Contains_iff [of "''my-frontend-svc''" "''backend''"] by simp
  have c3: "\<not> (\<exists>ps ss. ''my-Backend-svc'' = ps @ ''backend'' @ ss)"
    using Contains_iff [of "''my-Backend-svc''" "''backend''"] by simp
  have w: "Build_WORKING \<noteq> Build_SUCCESS" by (simp add: Build_Status_defs)
  show ?thesis
    using C5_secondary_trigger [of plain_notifier "backend_build ''my-backend-svc''" ?w]
      C5_secondary_trigger [of plain_notifier "backend_build ''my-frontend-svc''" ?w]
      C5_secondary_trigger [of plain_notifier "backend_build ''my-Backend-svc''" ?w]
      C5_secondary_trigger [of plain_notifier "(backend_build ''my-backend-svc'')\<lparr>Status := Build_WORKING\<rparr>" ?w]
      c1 c2 c3 w
    by (simp add: t a st)
qed

theorem C5_secondary_trigger_counterexample:
  "Status (backend_build ''my-backend-svc'') = Build_SUCCESS
   \<and> Contains (map_index (Substitutions (backend_build ''my-backend-svc'')) ''_APP_NAME'') ''backend''
   \<and> filter is_Get (trace (snd (buildMessage plain_notifier (backend_build ''my-backend-svc'')
         (dojo_world [])))) = []"
  by (simp add: buildMessage_Gets backend_build_def test_build_def dojo_world_def
      quiet_world_def map_index_def)

text \<open>
  Claim C6. With \<open>DOJO_URL\<close> empty \<open>callDojo\<close> does nothing at all; when its GET fails
  it only adds the request and one error log line to the trace. The message and the
  error of \<open>buildMessage\<close> are the same in any two worlds, and the error
  \<open>SendNotification\<close> returns is the same in any two worlds that answer the POST alike,
  whatever \<open>DOJO_URL\<close> and the outcome of the GET are in each.
\<close>

theorem C6_secondary_trigger_fire_and_forget:
  "(Getenv w ''DOJO_URL'' = [] \<longrightarrow> callDojo w = w)
   \<and> (Getenv w ''DOJO_URL'' \<noteq> [] \<longrightarrow> Get_result w (Getenv w ''DOJO_URL'') = Inl err \<longrightarrow>
        callDojo w = w\<lparr>trace := trace w @
          [http_Get (Getenv w ''DOJO_URL''),
           log_Errorf ''Failed to call dojo %s'' [Arg_error err]]\<rparr>)
   \<and> fst (buildMessage s build w) = fst (buildMessage s build w')
   \<and> (Post_result w = Post_result w' \<longrightarrow>
        fst (SendNotification s build w) = fst (SendNotification s build w'))"
proof -
  have a: "Getenv w ''DOJO_URL'' = [] \<longrightarrow> callDojo w = w"
    by (simp add: callDojo_def)
  have b: "Getenv w ''DOJO_URL'' \<noteq> [] \<longrightarrow> Get_result w (Getenv w ''DOJO_URL'') = Inl err \<longrightarrow>
        callDojo w = w\<lparr>trace := trace w @
          [http_Get (Getenv w ''DOJO_URL''),
           log_Errorf ''Failed to call dojo %s'' [Arg_error err]]\<rparr>"
    by (simp add: callDojo_def Let_def emit_def)
  have c: "fst (buildMessage s build w) = fst (buildMessage s build w')"
    by (rule buildMessage_result_any_world)
  have d: "Post_result w = Post_result w' \<longrightarrow>
        fst (SendNotification s build w) = fst (SendNotification s build w')"
    by (simp add: SendNotification_unfold [of s build w] SendNotification_unfold [of s build w']
        buildMessage_result_any_world [of s build w' w] Let_def
        split: prod.splits option.splits sum.splits)
  from a b c d show ?thesis by blast
qed

theorem C6_secondary_trigger_fire_and_forget_witness:
  "Getenv (dojo_world []) ''DOJO_URL'' = []
   \<and> callDojo (dojo_world []) = dojo_world []
   \<and> Get_result failing_dojo_world (Getenv failing_dojo_world ''DOJO_URL'')
       = Inl (TransportError ''connection refused'')
   \<and> callDojo failing_dojo_world = failing_dojo_world\<lparr>trace :=
        [http_Get ''https://dojo.example/ping'',
         log_Errorf ''Failed to call dojo %s'' [Arg_error (TransportError ''connection refused'')]]\<rparr>
   \<and> fst (buildMessage plain_notifier (backend_build ''my-backend-svc'') failing_dojo_world)
       = fst (buildMessage plain_notifier (backend_build ''my-backend-svc'') (dojo_world []))
   \<and> fst (SendNotification plain_notifier (backend_build ''my-backend-svc'') failing_dojo_world)
       = fst (SendNotification plain_notifier (backend_build ''my-backend-svc'') (dojo_world []))"
proof -
  let ?f = failing_dojo_world
  let ?q = "dojo_world []"
  let ?b = "backend_build ''my-backend-svc''"
  have e: "Getenv ?q ''DOJO_URL'' = []" by (simp add: dojo_world_def)
  have u: "Getenv ?f ''DOJO_URL'' = ''https://dojo.example/ping''"
    by (simp add: failing_dojo_world_def dojo_world_def)
  have g: "Get_result ?f (Getenv ?f ''DOJO_URL'') = Inl (TransportError ''connection refused'')"
    by (simp add: failing_dojo_world_def)
  have t: "trace ?f = []"
    by (simp add: failing_dojo_world_def dojo_world_def quiet_world_def)
  have p: "Post_result ?f = Post_result ?q"
    by (simp add: failing_dojo_world_def dojo_world_def)
  show ?thesis
    using C6_secondary_trigger_fire_and_forget
        [of ?q "TransportError ''connection refused''" plain_notifier ?b ?q]
      C6_secondary_trigger_fire_and_forget
        [of ?f "TransportError ''connection refused''" plain_notifier ?b ?q]
      e g p
    by (simp add: u t)
qed

text \<open>
  Claim C7. For an event that passes the gate and has one of the five statuses, the
  message is marshalled without error, \<open>SendNotification\<close> adds exactly one POST to the
  trace (to the webhook URL, with the payload), and it returns the error of the
  transport when there is one and nil for a response, whatever the response is.
\<close>

theorem C7_single_post_error_propagated:
  assumes "shouldNotify s build" and "handled_status (Status build)"
  shows "\<exists>msg payload.
      fst (buildMessage s build w) = (Some msg, None)
    \<and> json_Marshal msg = Inr payload
    \<and> filter is_Post (trace (snd (SendNotification s build w)))
        = filter is_Post (trace w) @ [http_Post (webhookURL s) ''application/json'' payload]
    \<and> fst (SendNotification s build w)
        = (case Post_result w (webhookURL s) ''application/json'' payload of
             Inl err \<Rightarrow> Some err
           | Inr resp \<Rightarrow> None)"
proof -
  obtain msg where m: "fst (buildMessage s build w) = (Some msg, None)"
    using assms(2) by (simp add: buildMessage_result)
  obtain payload where p: "json_Marshal msg = Inr payload"
    by (simp add: json_Marshal_def)
  have posts: "filter is_Post (trace (snd (SendNotification s build w)))
        = filter is_Post (trace w) @ [http_Post (webhookURL s) ''application/json'' payload]"
    using assms(1)
    by (simp add: SendNotification_unfold m p Let_def split: sum.splits)
       (simp add: emit_def buildMessage_Posts)
  have res: "fst (SendNotification s build w)
        = (case Post_result w (webhookURL s) ''application/json'' payload of
             Inl err \<Rightarrow> Some err | Inr resp \<Rightarrow> None)"
    using assms(1)
    by (simp add: SendNotification_unfold m p Let_def split: sum.splits)
  from m p posts res show ?thesis by blast
qed

theorem C7_single_post_error_propagated_witness:
  "shouldNotify plain_notifier test_build \<and> handled_status (Status test_build)
   \<and> length (filter is_Post (trace (snd (SendNotification plain_notifier test_build
        (post_world (Inr \<lparr>StatusCode = 500\<rparr>)))))) = 1
   \<and> fst (SendNotification plain_notifier test_build (post_world (Inr \<lparr>StatusCode = 500\<rparr>))) = None
   \<and> fst (SendNotification plain_notifier test_build
        (post_world (Inl (TransportError ''connection reset'')))) = Some (TransportError ''connection reset'')"
proof -
  have g: "shouldNotify plain_notifier test_build"
    by (simp add: shouldNotify_def plain_notifier_def test_build_def map_index_def)
  have h: "handled_status (Status test_build)"
    by (simp add: handled_status_def test_build_def)
  have t: "trace (post_world outcome) = []" for outcome
    by (simp add: post_world_def quiet_world_def)
  have r: "Post_result (post_world outcome) u c p = outcome" for outcome u c p
    by (simp add: post_world_def)
  show ?thesis
    using C7_single_post_error_propagated [OF g h, of "post_world (Inr \<lparr>StatusCode = 500\<rparr>)"]
      C7_single_post_error_propagated [OF g h, of "post_world (Inl (TransportError ''connection reset''))"]
      g h
    by (auto simp: t r)
qed

text \<open>
  Claim C9. The error of \<open>buildMessage\<close> is nil for every build, and its message is nil
  exactly when the status is none of the five.
\<close>

theorem C9_buildMessage_never_fails:
  "snd (fst (buildMessage s build w)) = None
   \<and> (fst (fst (buildMessage s build w)) = None) = (\<not> handled_status (Status build))"
  by (simp add: buildMessage_result)

text \<open>
  Claim C8, as amended. The claim as stated fails for a message with a string that is
  not well-formed UTF-8 (the last theorem of the three below: the byte FF is written as
  the escape of U+FFFD and read back as the three bytes of U+FFFD). For every message
  whose strings are well-formed UTF-8, \<open>json.Marshal\<close> succeeds and reading its
  payload back gives the message, field for field, a nil slice of embeds and an empty
  one included.
\<close>

theorem C8_roundtrip_valid_utf8:
  assumes "message_valid m"
  shows "\<exists>payload. json_Marshal m = Inr payload \<and> json_Unmarshal payload = Some m"
  using assms by (rule json_Unmarshal_Marshal)

theorem C8_roundtrip_valid_utf8_witness:
  "message_valid success_message
   \<and> (\<exists>payload. json_Marshal success_message = Inr payload
         \<and> json_Unmarshal payload = Some success_message)"
  using C8_roundtrip_valid_utf8 [OF success_message_valid] success_message_valid by blast

theorem C8_roundtrip_counterexample:
  "json_Marshal invalid_message
     = Inr (''{'' @ key ''content'' @ [CHR 0x22, CHR 0x5C] @ ''ufffd'' @ [CHR 0x22]
            @ '','' @ key ''embeds'' @ ''null}'')
   \<and> json_Unmarshal (''{'' @ key ''content'' @ [CHR 0x22, CHR 0x5C] @ ''ufffd'' @ [CHR 0x22]
            @ '','' @ key ''embeds'' @ ''null}'')
     = Some \<lparr>Content = [CHR 0xEF, CHR 0xBF, CHR 0xBD], Embeds = None\<rparr>
   \<and> Some \<lparr>Content = [CHR 0xEF, CHR 0xBF, CHR 0xBD], Embeds = None\<rparr> \<noteq> Some invalid_message"
proof -
  have u: "json_Unmarshal (''{'' @ key ''content'' @ [CHR 0x22, CHR 0x5C] @ ''ufffd'' @ [CHR 0x22]
            @ '','' @ key ''embeds'' @ ''null}'')
     = Some \<lparr>Content = [CHR 0xEF, CHR 0xBF, CHR 0xBD], Embeds = None\<rparr>"
    by (simp add: json_Unmarshal_def key_def expect_def parse_string_def hex_val_def
        IsSurrogate_def EncodeRune_def cons_result_def parse_embeds_def char_of_eq_iff)
  show ?thesis
    using invalid_payload u by (simp add: invalid_message_def)
qed

end
